theory Spec2Isabelle
  imports Main "HOL-Library.Sublist"
begin

section \<open>Python values\<close>

text \<open>
  A Python \<open>str\<close> is a sequence of Unicode code points; \<open>len\<close>, slicing and \<open>in\<close>
  work on code points, so text is a list of code points. Keys of the dictionaries the
  program reads are ASCII literals of the source and are kept as \<open>string\<close>.
\<close>

type_synonym ustr = "nat list"

definition ustr_of :: "string \<Rightarrow> ustr" where
  "ustr_of s = map of_char s"

text \<open>
  A float is only carried by the program (parsed, compared with zero, printed), never
  computed with: a finite float is \<open>m * 2 ^ e\<close>.
\<close>

datatype pyfloat = Finite int int | Infinity bool | NaN

text \<open>
  What \<open>response.json()\<close> returns. Python's \<open>None\<close> is \<open>JNull\<close>; a dictionary is
  an association list read with \<open>map_of\<close>.
\<close>

datatype json =
    JNull
  | JBool bool
  | JInt int
  | JFloat pyfloat
  | JStr ustr
  | JList "json list"
  | JObj "(string \<times> json) list"

datatype error =
    KeyError
  | TypeError
  | AttributeError
  | ValueError
  | IndexError
  | IntegrityError
  | DoesNotExist

text \<open>Truth value of an object, as \<open>if x:\<close> and \<open>not x\<close> test it.\<close>

fun truthy :: "json \<Rightarrow> bool" where
  "truthy JNull = False"
| "truthy (JBool b) = b"
| "truthy (JInt i) = (i \<noteq> 0)"
| "truthy (JFloat f) = (case f of Finite m e \<Rightarrow> m \<noteq> 0 | _ \<Rightarrow> True)"
| "truthy (JStr s) = (s \<noteq> [])"
| "truthy (JList xs) = (xs \<noteq> [])"
| "truthy (JObj kvs) = (kvs \<noteq> [])"

text \<open>\<open>d.get(key, default)\<close>: only a dictionary has the method.\<close>

fun py_get :: "json \<Rightarrow> string \<Rightarrow> json \<Rightarrow> error + json" where
  "py_get (JObj kvs) key dflt = Inr (case map_of kvs key of None \<Rightarrow> dflt | Some v \<Rightarrow> v)"
| "py_get _ key dflt = Inl AttributeError"

text \<open>\<open>d[key]\<close> with a string key: a missing key raises, and so does every other type.\<close>

fun subscript :: "json \<Rightarrow> string \<Rightarrow> error + json" where
  "subscript (JObj kvs) key = (case map_of kvs key of None \<Rightarrow> Inl KeyError | Some v \<Rightarrow> Inr v)"
| "subscript _ key = Inl TypeError"

text \<open>\<open>xs[:n]\<close> on a sequence: a negative bound counts from the end.\<close>

definition slice_to :: "'a list \<Rightarrow> int \<Rightarrow> 'a list" where
  "slice_to xs n = (if 0 \<le> n then take (nat n) xs else take (length xs - nat (- n)) xs)"

text \<open>\<open>for x in v\<close>: a string yields its characters, a dictionary its keys.\<close>

fun iterate :: "json \<Rightarrow> error + json list" where
  "iterate (JList xs) = Inr xs"
| "iterate (JStr s) = Inr (map (\<lambda>c. JStr [c]) s)"
| "iterate (JObj kvs) = Inr (map (\<lambda>kv. JStr (ustr_of (fst kv))) kvs)"
| "iterate _ = Inl TypeError"

text \<open>\<open>sep.join(parts)\<close>.\<close>

fun join :: "ustr \<Rightarrow> ustr list \<Rightarrow> ustr" where
  "join sep [] = []"
| "join sep [x] = x"
| "join sep (x # y # ys) = x @ sep @ join sep (y # ys)"

section \<open>Configuration (config.py)\<close>

definition MAX_HISTORY_ENTRIES :: int where
  "MAX_HISTORY_ENTRIES = 10"

definition MOVIES_PER_PAGE :: int where
  "MOVIES_PER_PAGE = 5"

section \<open>Tables (models.py)\<close>

text \<open>
  No model declares a primary key, so each table gets the implicit integer \<open>id\<close>.
  The database is \<open>SqliteDatabase(name)\<close> with no pragmas and the foreign keys carry
  no \<open>on_delete\<close>: foreign keys are plain integer columns, and nothing is enforced or
  cascaded. The table \<open>UserMovieStatus\<close> is never read or written by the bot.
\<close>

record user_row =
  user_id :: nat
  telegram_id :: int
  username :: "ustr option"
  first_name :: ustr
  last_name :: "ustr option"
  user_created_at :: int

record search_history =
  search_id :: nat
  search_user :: nat
  search_type :: ustr
  query :: ustr
  result_count :: int
  created_at :: int

record movie_result =
  row_id :: nat
  search :: nat
  movie_id :: json
  title :: json
  original_title :: json
  overview :: json
  release_date :: json
  vote_average :: json
  vote_count :: json
  genre_names :: ustr
  adult :: json
  poster_path :: json
  budget :: json
  revenue :: json

section \<open>The world the bot runs in\<close>

text \<open>
  Requests sent to the metadata provider. The API key is a deployment secret and is left
  out of the parameters.
\<close>

datatype request =
    Search_movie ustr int
  | Discover_movie "(string \<times> json) list"
  | Genre_list
  | Movie_details json

text \<open>
  What \<open>format_movie_message\<close> puts into the text of a movie: the rendering itself
  (labels, markup, thousands separators) belongs to the chat adapter.
\<close>

record message =
  msg_title :: json
  msg_original_title :: json
  msg_year :: json
  msg_rating :: json
  msg_genres :: ustr
  msg_adult :: bool
  msg_budget :: "json option"
  msg_revenue :: "json option"
  msg_overview :: json

text \<open>Messages handed to the chat transport.\<close>

datatype reply =
    Usage_movie_search
  | Usage_rating
  | Not_a_number
  | Searching_title ustr
  | Searching_rating pyfloat "ustr option"
  | Searching_budget ustr "ustr option"
  | Searching_quick ustr
  | Movies_not_found_query
  | Movies_not_found_params
  | Movie_not_found
  | No_movie_info
  | Movie_photo json message
  | Movie_text message
  | History_empty
  | History_list "search_history list"
  | History_cleared nat

text \<open>
  The state: the three tables in insertion order, the requests issued so far, the
  messages sent so far, and the number of clock readings taken.
\<close>

record state =
  users :: "user_row list"
  searches :: "search_history list"
  movies :: "movie_result list"
  requests :: "request list"
  sent :: "reply list"
  ticks :: nat

text \<open>
  What the program cannot decide: the provider's answer to the \<open>n\<close>-th request
  (\<open>None\<close> is a \<open>RequestException\<close>: timeout, transport failure or error status), the
  reading of the clock, and the runtime's \<open>str.lower\<close>, \<open>float\<close> and float printing.
\<close>

record env =
  http :: "nat \<Rightarrow> request \<Rightarrow> json option"
  clock :: "nat \<Rightarrow> int"
  lower :: "ustr \<Rightarrow> ustr"
  float_of :: "ustr \<Rightarrow> pyfloat option"
  float_str :: "pyfloat \<Rightarrow> ustr"

text \<open>
  An action runs on the state and either returns or raises. What it wrote before
  raising stays written.
\<close>

type_synonym 'a action = "state \<Rightarrow> (error + 'a) \<times> state"

definition returnA :: "'a \<Rightarrow> 'a action" where
  "returnA x = (\<lambda>s. (Inr x, s))"

definition liftA :: "error + 'a \<Rightarrow> 'a action" where
  "liftA r = (\<lambda>s. (r, s))"

definition bindA :: "'a action \<Rightarrow> ('a \<Rightarrow> 'b action) \<Rightarrow> 'b action" where
  "bindA m f = (\<lambda>s. case m s of (Inl e, s') \<Rightarrow> (Inl e, s') | (Inr x, s') \<Rightarrow> f x s')"

definition now :: "env \<Rightarrow> int action" where
  "now env = (\<lambda>s. (Inr (clock env (ticks s)), s\<lparr>ticks := Suc (ticks s)\<rparr>))"

definition reply_text :: "reply \<Rightarrow> unit action" where
  "reply_text r = (\<lambda>s. (Inr (), s\<lparr>sent := sent s @ [r]\<rparr>))"

text \<open>
  \<open>with database.atomic()\<close>: when the body raises, the tables are rolled back and the
  exception goes on.
\<close>

definition atomic :: "'a action \<Rightarrow> 'a action" where
  "atomic body = (\<lambda>s. case body s of
       (Inl e, s') \<Rightarrow> (Inl e, s'\<lparr>users := users s, searches := searches s, movies := movies s\<rparr>)
     | (Inr x, s') \<Rightarrow> (Inr x, s'))"

text \<open>
  The implicit \<open>id\<close> column is an integer primary key without \<open>AUTOINCREMENT\<close>: SQLite
  gives a new row one more than the largest id in the table at that moment.
\<close>

definition next_id :: "nat list \<Rightarrow> nat" where
  "next_id ids = Suc (fold max ids 0)"

section \<open>User rows\<close>

record tg_user =
  tg_id :: int
  tg_username :: "ustr option"
  tg_first_name :: ustr
  tg_last_name :: "ustr option"

record update =
  effective_user :: tg_user
  args :: "ustr list"
  message_text :: ustr

definition get_or_create_user :: "env \<Rightarrow> update \<Rightarrow> nat action" where
  "get_or_create_user env upd =
     (let user_data = effective_user upd in
      (\<lambda>s. case find (\<lambda>u. telegram_id u = tg_id user_data) (users s) of
          Some u \<Rightarrow> (Inr (user_id u), s)
        | None \<Rightarrow>
            bindA (now env) (\<lambda>t s'.
              let u = \<lparr>user_id = next_id (map user_id (users s')),
                       telegram_id = tg_id user_data,
                       username = tg_username user_data,
                       first_name = tg_first_name user_data,
                       last_name = tg_last_name user_data,
                       user_created_at = t\<rparr>
              in (Inr (user_id u), s'\<lparr>users := users s' @ [u]\<rparr>)) s))"

text \<open>\<open>User.get(telegram_id=...)\<close> raises when there is no such row.\<close>

definition User_get :: "int \<Rightarrow> nat action" where
  "User_get tid = (\<lambda>s. case find (\<lambda>u. telegram_id u = tid) (users s) of
       Some u \<Rightarrow> (Inr (user_id u), s)
     | None \<Rightarrow> (Inl DoesNotExist, s))"

section \<open>Writing the history\<close>

definition SearchHistory_create :: "env \<Rightarrow> nat \<Rightarrow> ustr \<Rightarrow> ustr \<Rightarrow> int \<Rightarrow> nat action" where
  "SearchHistory_create env user stype q n =
     bindA (now env) (\<lambda>t s.
       let e = \<lparr>search_id = next_id (map search_id (searches s)),
                search_user = user, search_type = stype, query = q,
                result_count = n, created_at = t\<rparr>
       in (Inr (search_id e), s\<lparr>searches := searches s @ [e]\<rparr>))"

text \<open>
  \<open>', '.join([genre['name'] for genre in movie_data.get('genres', [])])\<close>: the
  comprehension raises at the first genre without a name, \<open>join\<close> at a name that is not text.
\<close>

fun names_of :: "json list \<Rightarrow> error + json list" where
  "names_of [] = Inr []"
| "names_of (genre # rest) =
     (case subscript genre ''name'' of
        Inl e \<Rightarrow> Inl e
      | Inr n \<Rightarrow> (case names_of rest of Inl e \<Rightarrow> Inl e | Inr ns \<Rightarrow> Inr (n # ns)))"

fun texts_of :: "json list \<Rightarrow> error + ustr list" where
  "texts_of [] = Inr []"
| "texts_of (JStr s # rest) = (case texts_of rest of Inl e \<Rightarrow> Inl e | Inr ss \<Rightarrow> Inr (s # ss))"
| "texts_of (_ # rest) = Inl TypeError"

definition joined_genres :: "json \<Rightarrow> error + ustr" where
  "joined_genres movie_data =
     (case py_get movie_data ''genres'' (JList []) of
        Inl e \<Rightarrow> Inl e
      | Inr gs \<Rightarrow>
          (case iterate gs of
             Inl e \<Rightarrow> Inl e
           | Inr genres \<Rightarrow>
               (case names_of genres of
                  Inl e \<Rightarrow> Inl e
                | Inr ns \<Rightarrow>
                    (case texts_of ns of
                       Inl e \<Rightarrow> Inl e
                     | Inr ss \<Rightarrow> Inr (join (ustr_of '', '') ss)))))"

text \<open>
  \<open>MovieResult.create(search=search, movie_id=movie_data.get('id'), ...)\<close>. The
  arguments are evaluated first, in order; the insert then fails on \<open>None\<close> in a column
  that is not nullable (\<open>movie_id\<close>, \<open>title\<close>, \<open>adult\<close>). The row keeps each value as
  handed over: the conversions peewee applies per column type (\<open>int\<close>, \<open>float\<close>,
  \<open>str\<close>, \<open>bool\<close>) change nothing on a value of the column's type and are not modelled
  beyond that, so on other values the program can raise where this definition stores.
\<close>

definition get_or :: "json \<Rightarrow> string \<Rightarrow> json \<Rightarrow> json" where
  "get_or movie_data key dflt = (case py_get movie_data key dflt of Inl e \<Rightarrow> dflt | Inr v \<Rightarrow> v)"

definition movie_row :: "nat \<Rightarrow> nat \<Rightarrow> json \<Rightarrow> json \<Rightarrow> ustr \<Rightarrow> movie_result" where
  "movie_row rid srch mid movie_data gnames =
     \<lparr>row_id = rid,
      search = srch,
      movie_id = mid,
      title = get_or movie_data ''title'' (JStr []),
      original_title = get_or movie_data ''original_title'' (JStr []),
      overview = get_or movie_data ''overview'' (JStr []),
      release_date = get_or movie_data ''release_date'' (JStr []),
      vote_average = get_or movie_data ''vote_average'' (JInt 0),
      vote_count = get_or movie_data ''vote_count'' (JInt 0),
      genre_names = gnames,
      adult = get_or movie_data ''adult'' (JBool False),
      poster_path = get_or movie_data ''poster_path'' (JStr []),
      budget = get_or movie_data ''budget'' (JInt 0),
      revenue = get_or movie_data ''revenue'' (JInt 0)\<rparr>"

definition MovieResult_create :: "nat \<Rightarrow> json \<Rightarrow> unit action" where
  "MovieResult_create srch movie_data =
     (case py_get movie_data ''id'' JNull of
        Inl e \<Rightarrow> liftA (Inl e)
      | Inr mid \<Rightarrow>
          (case joined_genres movie_data of
             Inl e \<Rightarrow> liftA (Inl e)
           | Inr gnames \<Rightarrow>
               (\<lambda>s. let r = movie_row (next_id (map row_id (movies s))) srch mid movie_data gnames
                    in if movie_id r = JNull \<or> title r = JNull \<or> adult r = JNull
                       then (Inl IntegrityError, s)
                       else (Inr (), s\<lparr>movies := movies s @ [r]\<rparr>))))"

fun create_movie_results :: "nat \<Rightarrow> json list \<Rightarrow> unit action" where
  "create_movie_results srch [] = returnA ()"
| "create_movie_results srch (movie_data # rest) =
     bindA (MovieResult_create srch movie_data) (\<lambda>_. create_movie_results srch rest)"

definition save_search_history :: "env \<Rightarrow> nat \<Rightarrow> ustr \<Rightarrow> ustr \<Rightarrow> json list \<Rightarrow> unit action" where
  "save_search_history env user stype q results =
     atomic (bindA (SearchHistory_create env user stype q (int (length results)))
               (\<lambda>srch. create_movie_results srch results))"

section \<open>Metadata provider\<close>

text \<open>
  Every call is one request; \<open>except requests.RequestException: return None\<close> turns a
  failed request into \<open>None\<close>.
\<close>

definition http_get :: "env \<Rightarrow> request \<Rightarrow> json action" where
  "http_get env rq = (\<lambda>s.
     (Inr (case http env (length (requests s)) rq of None \<Rightarrow> JNull | Some body \<Rightarrow> body),
      s\<lparr>requests := requests s @ [rq]\<rparr>))"

definition search_movies_by_title :: "env \<Rightarrow> ustr \<Rightarrow> int \<Rightarrow> json action" where
  "search_movies_by_title env q page = http_get env (Search_movie q page)"

definition get_movie_details :: "env \<Rightarrow> json \<Rightarrow> json action" where
  "get_movie_details env mid = http_get env (Movie_details mid)"

text \<open>
  The loop of \<open>get_genre_id\<close>:
  \<open>if genre_name.lower() in genre['name'].lower(): return genre['id']\<close>.
\<close>

fun find_genre :: "(ustr \<Rightarrow> ustr) \<Rightarrow> ustr \<Rightarrow> json list \<Rightarrow> error + json" where
  "find_genre lw genre_name [] = Inr JNull"
| "find_genre lw genre_name (genre # rest) =
     (case subscript genre ''name'' of
        Inl e \<Rightarrow> Inl e
      | Inr (JStr nm) \<Rightarrow>
          if sublist (lw genre_name) (lw nm) then subscript genre ''id''
          else find_genre lw genre_name rest
      | Inr _ \<Rightarrow> Inl AttributeError)"

definition get_genre_id :: "env \<Rightarrow> ustr \<Rightarrow> json action" where
  "get_genre_id env genre_name = (\<lambda>s.
     case http env (length (requests s)) Genre_list of
       None \<Rightarrow> (Inr JNull, s\<lparr>requests := requests s @ [Genre_list]\<rparr>)
     | Some body \<Rightarrow>
         (case py_get body ''genres'' (JList []) of
            Inl e \<Rightarrow> Inl e
          | Inr gs \<Rightarrow>
              (case iterate gs of
                 Inl e \<Rightarrow> Inl e
               | Inr genres \<Rightarrow> find_genre (lower env) genre_name genres),
          s\<lparr>requests := requests s @ [Genre_list]\<rparr>))"

text \<open>
  \<open>if genre: genre_id = await self.get_genre_id(genre); if genre_id: params['with_genres'] = genre_id\<close>,
  the same lines in both discover searches.
\<close>

definition add_genre :: "env \<Rightarrow> ustr option \<Rightarrow> (string \<times> json) list \<Rightarrow> (string \<times> json) list action" where
  "add_genre env genre params =
     (case genre of
        None \<Rightarrow> returnA params
      | Some g \<Rightarrow>
          if g = [] then returnA params
          else bindA (get_genre_id env g) (\<lambda>genre_id.
                 returnA (if truthy genre_id then params @ [(''with_genres'', genre_id)] else params)))"

definition rating_params :: "pyfloat \<Rightarrow> int \<Rightarrow> (string \<times> json) list" where
  "rating_params min_rating page =
     [(''sort_by'', JStr (ustr_of ''vote_average.desc'')),
      (''vote_count.gte'', JInt 100),
      (''vote_average.gte'', JFloat min_rating),
      (''page'', JInt page),
      (''language'', JStr (ustr_of ''ru-RU''))]"

definition search_movies_by_rating :: "env \<Rightarrow> pyfloat \<Rightarrow> ustr option \<Rightarrow> int \<Rightarrow> json action" where
  "search_movies_by_rating env min_rating genre page =
     bindA (add_genre env genre (rating_params min_rating page))
       (\<lambda>params. http_get env (Discover_movie params))"

definition budget_params :: "string \<Rightarrow> int \<Rightarrow> (string \<times> json) list" where
  "budget_params budget_type page =
     (let sort_by = (if budget_type = ''low'' then ''budget.asc'' else ''budget.desc'') in
      [(''sort_by'', JStr (ustr_of sort_by)),
       (''budget.gte'', JInt 1000),
       (''page'', JInt page),
       (''language'', JStr (ustr_of ''ru-RU''))])"

definition search_movies_by_budget :: "env \<Rightarrow> string \<Rightarrow> ustr option \<Rightarrow> int \<Rightarrow> json action" where
  "search_movies_by_budget env budget_type genre page =
     bindA (add_genre env genre (budget_params budget_type page))
       (\<lambda>params. http_get env (Discover_movie params))"

section \<open>Formatting\<close>

definition unknown_text :: ustr where
  "unknown_text = [1053, 1077, 1080, 1079, 1074, 1077, 1089, 1090, 1085, 1086]"

definition no_overview_text :: ustr where
  "no_overview_text = [1054, 1087, 1080, 1089, 1072, 1085, 1080, 1077, 32, 1086, 1090, 1089,
     1091, 1090, 1089, 1090, 1074, 1091, 1077, 1090, 46]"

text \<open>\<open>release_date[:4] if release_date else ...\<close>: only text and lists can be sliced.\<close>

definition year_of :: "json \<Rightarrow> error + json" where
  "year_of rdate =
     (if \<not> truthy rdate then Inr (JStr unknown_text)
      else case rdate of
             JStr s \<Rightarrow> Inr (JStr (slice_to s 4))
           | JList xs \<Rightarrow> Inr (JList (slice_to xs 4))
           | _ \<Rightarrow> Inl TypeError)"

text \<open>\<open>x > 0\<close>: numbers compare with zero, everything else raises.\<close>

fun positive :: "json \<Rightarrow> error + bool" where
  "positive (JInt i) = Inr (0 < i)"
| "positive (JBool b) = Inr b"
| "positive (JFloat (Finite m e)) = Inr (0 < m)"
| "positive (JFloat (Infinity up)) = Inr up"
| "positive (JFloat NaN) = Inr False"
| "positive _ = Inl TypeError"

definition format_movie_message :: "json \<Rightarrow> error + message" where
  "format_movie_message movie_data =
     (case py_get movie_data ''title'' (JStr unknown_text) of
        Inl e \<Rightarrow> Inl e
      | Inr ttl \<Rightarrow>
     (case joined_genres movie_data of
        Inl e \<Rightarrow> Inl e
      | Inr genres \<Rightarrow>
     (case year_of (get_or movie_data ''release_date'' (JStr unknown_text)) of
        Inl e \<Rightarrow> Inl e
      | Inr year \<Rightarrow>
     (case positive (get_or movie_data ''budget'' (JInt 0)) of
        Inl e \<Rightarrow> Inl e
      | Inr has_budget \<Rightarrow>
     (case positive (get_or movie_data ''revenue'' (JInt 0)) of
        Inl e \<Rightarrow> Inl e
      | Inr has_revenue \<Rightarrow>
          Inr \<lparr>msg_title = ttl,
               msg_original_title = get_or movie_data ''original_title'' (JStr []),
               msg_year = year,
               msg_rating = get_or movie_data ''vote_average'' (JInt 0),
               msg_genres = (if genres = [] then unknown_text else genres),
               msg_adult = truthy (get_or movie_data ''adult'' JNull),
               msg_budget = (if has_budget then Some (get_or movie_data ''budget'' (JInt 0)) else None),
               msg_revenue = (if has_revenue then Some (get_or movie_data ''revenue'' (JInt 0)) else None),
               msg_overview = get_or movie_data ''overview'' (JStr no_overview_text)\<rparr>)))))"

section \<open>Search commands\<close>

text \<open>\<open>not results or not results.get('results')\<close>.\<close>

definition no_results :: "json \<Rightarrow> error + bool" where
  "no_results results =
     (if \<not> truthy results then Inr True
      else case py_get results ''results'' JNull of
             Inl e \<Rightarrow> Inl e
           | Inr page \<Rightarrow> Inr (\<not> truthy page))"

text \<open>
  \<open>results['results'][:self.config.MOVIES_PER_PAGE]\<close>, as the list the loop then walks
  through: text can be sliced too and yields its characters.
\<close>

definition first_page :: "json \<Rightarrow> error + json list" where
  "first_page results =
     (case subscript results ''results'' of
        Inl e \<Rightarrow> Inl e
      | Inr (JList xs) \<Rightarrow> Inr (slice_to xs MOVIES_PER_PAGE)
      | Inr (JStr cs) \<Rightarrow> Inr (map (\<lambda>c. JStr [c]) (slice_to cs MOVIES_PER_PAGE))
      | Inr _ \<Rightarrow> Inl TypeError)"

text \<open>
  The detail loop:
  \<open>details = await self.get_movie_details(movie['id']); if details: detailed_movies.append(details)\<close>.
\<close>

fun fetch_details :: "env \<Rightarrow> json list \<Rightarrow> json list action" where
  "fetch_details env [] = returnA []"
| "fetch_details env (movie # rest) =
     bindA (liftA (subscript movie ''id'')) (\<lambda>mid.
     bindA (get_movie_details env mid) (\<lambda>details.
     bindA (fetch_details env rest) (\<lambda>others.
     returnA (if truthy details then details # others else others))))"

text \<open>The loop that sends one message per movie, with the poster when there is one.\<close>

definition send_movie :: "json \<Rightarrow> message \<Rightarrow> unit action" where
  "send_movie poster msg =
     (if truthy poster then reply_text (Movie_photo poster msg) else reply_text (Movie_text msg))"

fun send_results :: "json list \<Rightarrow> unit action" where
  "send_results [] = returnA ()"
| "send_results (movie # rest) =
     bindA (liftA (format_movie_message movie)) (\<lambda>msg.
     bindA (liftA (py_get movie ''poster_path'' JNull)) (\<lambda>poster.
     bindA (send_movie poster msg) (\<lambda>_.
     send_results rest)))"

text \<open>
  The part the three commands share word for word, up to the text of the message for an
  empty answer: the first page, the details, the history, the messages.
\<close>

definition show_page :: "env \<Rightarrow> nat \<Rightarrow> ustr \<Rightarrow> ustr \<Rightarrow> reply \<Rightarrow> json \<Rightarrow> unit action" where
  "show_page env user stype q not_found results =
     bindA (liftA (no_results results)) (\<lambda>nothing.
       if nothing then reply_text not_found
       else
         bindA (liftA (first_page results)) (\<lambda>page.
         bindA (fetch_details env page) (\<lambda>detailed_movies.
         bindA (save_search_history env user stype q detailed_movies) (\<lambda>_.
         send_results detailed_movies))))"

definition movie_search_command :: "env \<Rightarrow> update \<Rightarrow> unit action" where
  "movie_search_command env upd =
     bindA (get_or_create_user env upd) (\<lambda>user.
       if args upd = [] then reply_text Usage_movie_search
       else
         (let q = join (ustr_of '' '') (args upd) in
          bindA (reply_text (Searching_title q)) (\<lambda>_.
          bindA (search_movies_by_title env q 1) (\<lambda>results.
          show_page env user (ustr_of ''title'') q Movies_not_found_query results))))"

definition movie_by_rating_command :: "env \<Rightarrow> update \<Rightarrow> unit action" where
  "movie_by_rating_command env upd =
     bindA (get_or_create_user env upd) (\<lambda>user.
       case args upd of
         [] \<Rightarrow> reply_text Usage_rating
       | a # others \<Rightarrow>
           (case float_of env a of
              None \<Rightarrow> reply_text Not_a_number
            | Some min_rating \<Rightarrow>
                (let genre = (case others of [] \<Rightarrow> None | g # _ \<Rightarrow> Some g);
                     shown = (case genre of None \<Rightarrow> [] | Some g \<Rightarrow>
                                if g = [] then [] else ustr_of '' genre:'' @ g) in
                 bindA (reply_text (Searching_rating min_rating genre)) (\<lambda>_.
                 bindA (search_movies_by_rating env min_rating genre 1) (\<lambda>results.
                 show_page env user (ustr_of ''rating'')
                   (ustr_of ''rating>'' @ float_str env min_rating @ shown) Movies_not_found_params results)))))"

definition handle_budget_search :: "env \<Rightarrow> update \<Rightarrow> string \<Rightarrow> unit action" where
  "handle_budget_search env upd budget_type =
     bindA (get_or_create_user env upd) (\<lambda>user.
       (let genre = (if args upd = [] then None else Some (join (ustr_of '' '') (args upd)));
            shown = (case genre of None \<Rightarrow> [] | Some g \<Rightarrow>
                       if g = [] then [] else ustr_of '' genre:'' @ g) in
        bindA (reply_text (Searching_budget (ustr_of budget_type) genre)) (\<lambda>_.
        bindA (search_movies_by_budget env budget_type genre 1) (\<lambda>results.
        show_page env user (ustr_of (''budget_'' @ budget_type))
          (ustr_of (''budget:'' @ budget_type) @ shown) Movies_not_found_params results))))"

definition low_budget_movie_command :: "env \<Rightarrow> update \<Rightarrow> unit action" where
  "low_budget_movie_command env upd = handle_budget_search env upd ''low''"

definition high_budget_movie_command :: "env \<Rightarrow> update \<Rightarrow> unit action" where
  "high_budget_movie_command env upd = handle_budget_search env upd ''high''"

section \<open>Quick search\<close>

text \<open>\<open>results['results'][0]\<close> on a value that passed the emptiness test.\<close>

definition first_result :: "json \<Rightarrow> error + json" where
  "first_result results =
     (case subscript results ''results'' of
        Inl e \<Rightarrow> Inl e
      | Inr (JList xs) \<Rightarrow> (case xs of [] \<Rightarrow> Inl IndexError | x # _ \<Rightarrow> Inr x)
      | Inr (JStr cs) \<Rightarrow> (case cs of [] \<Rightarrow> Inl IndexError | c # _ \<Rightarrow> Inr (JStr [c]))
      | Inr (JObj kvs) \<Rightarrow> Inl KeyError
      | Inr _ \<Rightarrow> Inl TypeError)"

definition handle_message :: "env \<Rightarrow> update \<Rightarrow> unit action" where
  "handle_message env upd =
     bindA (get_or_create_user env upd) (\<lambda>user.
       (let q = message_text upd in
        if 2 < length q then
          bindA (reply_text (Searching_quick q)) (\<lambda>_.
          bindA (search_movies_by_title env q 1) (\<lambda>results.
          bindA (liftA (no_results results)) (\<lambda>nothing.
            if nothing then reply_text Movie_not_found
            else
              bindA (liftA (first_result results)) (\<lambda>movie_data.
              bindA (liftA (subscript movie_data ''id'')) (\<lambda>mid.
              bindA (get_movie_details env mid) (\<lambda>details.
                if truthy details then
                  bindA (liftA (format_movie_message details)) (\<lambda>msg.
                  bindA (liftA (py_get details ''poster_path'' JNull)) (\<lambda>poster.
                  bindA (save_search_history env user (ustr_of ''title'') q [details]) (\<lambda>_.
                  send_movie poster msg)))
                else reply_text No_movie_info))))))
        else returnA ()))"

section \<open>Reading and clearing the history\<close>

text \<open>
  The query of \<open>history\<close>: the user's entries, newest first, at most
  \<open>MAX_HISTORY_ENTRIES\<close>. Entries of the same time keep their insertion order here;
  the database promises no order among them.
\<close>

definition recent_searches :: "nat \<Rightarrow> state \<Rightarrow> search_history list" where
  "recent_searches user s =
     slice_to (sort_key (\<lambda>e. - created_at e) (filter (\<lambda>e. search_user e = user) (searches s)))
       MAX_HISTORY_ENTRIES"

definition history :: "env \<Rightarrow> update \<Rightarrow> unit action" where
  "history env upd =
     bindA (get_or_create_user env upd) (\<lambda>user s.
       let found = recent_searches user s in
       if found = [] then reply_text History_empty s
       else reply_text (History_list found) s)"

text \<open>
  \<open>SearchHistory.delete().where(SearchHistory.user == user).execute()\<close>: one
  \<open>DELETE\<close> on the history table, returning the number of rows removed.
\<close>

definition delete_searches :: "nat \<Rightarrow> nat action" where
  "delete_searches user = (\<lambda>s.
     (Inr (length (filter (\<lambda>e. search_user e = user) (searches s))),
      s\<lparr>searches := filter (\<lambda>e. search_user e \<noteq> user) (searches s)\<rparr>))"

definition clear_history :: "int \<Rightarrow> unit action" where
  "clear_history from_user_id =
     bindA (User_get from_user_id) (\<lambda>user.
     bindA (delete_searches user) (\<lambda>deleted_count.
     reply_text (History_cleared deleted_count)))"

section \<open>Notions used in the statements\<close>

text \<open>The rows of the movie table that reference a history entry.\<close>

definition owned_rows :: "nat \<Rightarrow> state \<Rightarrow> movie_result list" where
  "owned_rows sid s = filter (\<lambda>r. search r = sid) (movies s)"

text \<open>The history entries of a user.\<close>

definition entries_of :: "nat \<Rightarrow> state \<Rightarrow> search_history list" where
  "entries_of user s = filter (\<lambda>e. search_user e = user) (searches s)"

text \<open>A row is the snapshot of a movie for a history entry.\<close>

definition snapshot_of :: "nat \<Rightarrow> json \<Rightarrow> movie_result \<Rightarrow> bool" where
  "snapshot_of sid movie_data r =
     (joined_genres movie_data = Inr (genre_names r) \<and>
      r = movie_row (row_id r) sid (get_or movie_data ''id'' JNull) movie_data (genre_names r))"


definition id_of :: "json \<Rightarrow> json" where
  "id_of m = (case subscript m ''id'' of Inl e \<Rightarrow> JNull | Inr v \<Rightarrow> v)"


text \<open>Type tests on values.\<close>

fun is_int :: "json \<Rightarrow> bool" where
  "is_int (JInt i) = True"
| "is_int _ = False"

fun is_str :: "json \<Rightarrow> bool" where
  "is_str (JStr t) = True"
| "is_str _ = False"

fun is_bool :: "json \<Rightarrow> bool" where
  "is_bool (JBool b) = True"
| "is_bool _ = False"

text \<open>A field that is there and passes a test, and one that may be missing.\<close>

definition required :: "(json \<Rightarrow> bool) \<Rightarrow> (string \<times> json) list \<Rightarrow> string \<Rightarrow> bool" where
  "required ok kvs key = (case map_of kvs key of None \<Rightarrow> False | Some v \<Rightarrow> ok v)"


text \<open>An entry of the provider's genre list: a name and a numeric id.\<close>

fun genre_entry :: "json \<Rightarrow> bool" where
  "genre_entry (JObj kvs) = (required is_str kvs ''name'' \<and> required is_int kvs ''id'')"
| "genre_entry _ = False"


definition name_of :: "json \<Rightarrow> ustr" where
  "name_of g = (case subscript g ''name'' of Inr (JStr nm) \<Rightarrow> nm | _ \<Rightarrow> [])"

text \<open>Containment ignoring case, with the runtime's lower-casing.\<close>

definition contains_ignoring_case :: "env \<Rightarrow> ustr \<Rightarrow> ustr \<Rightarrow> bool" where
  "contains_ignoring_case env part whole = sublist (lower env part) (lower env whole)"


text \<open>A reply that shows a movie.\<close>

fun movie_reply :: "reply \<Rightarrow> bool" where
  "movie_reply (Movie_photo poster msg) = True"
| "movie_reply (Movie_text msg) = True"
| "movie_reply _ = False"

text \<open>The history entry a write creates: the next id, the clock reading, the given fields.\<close>

definition new_entry :: "env \<Rightarrow> nat \<Rightarrow> ustr \<Rightarrow> ustr \<Rightarrow> int \<Rightarrow> state \<Rightarrow> search_history" where
  "new_entry env user stype q n s =
     \<lparr>search_id = next_id (map search_id (searches s)), search_user = user, search_type = stype,
      query = q, result_count = n, created_at = clock env (ticks s)\<rparr>"

section \<open>Example data\<close>

definition demo_candidate :: "int \<Rightarrow> json" where
  "demo_candidate i = JObj [(''id'', JInt i)]"

definition demo_film :: "json \<Rightarrow> json" where
  "demo_film mid = JObj [(''id'', mid), (''title'', JStr [70])]"

definition demo_page :: json where
  "demo_page = JObj [(''results'', JList [demo_candidate 1, demo_candidate 2, demo_candidate 3,
     demo_candidate 4, demo_candidate 5, demo_candidate 6])]"

text \<open>
  A provider that answers every search with six candidates and every detail request but
  the one for movie 3, and a runtime that lower-cases ASCII and the Russian alphabet.
\<close>

definition demo_lower :: "ustr \<Rightarrow> ustr" where
  "demo_lower = map (\<lambda>c. if (65 \<le> c \<and> c \<le> 90) \<or> (1040 \<le> c \<and> c \<le> 1071) then c + 32 else c)"

definition demo_genres :: json where
  "demo_genres = JObj [(''genres'', JList
     [JObj [(''id'', JInt 18), (''name'', JStr [1044, 1088, 1072, 1084, 1072])],
      JObj [(''id'', JInt 878), (''name'', JStr [1060, 1072, 1085, 1090, 1072, 1089, 1090, 1080, 1082, 1072])],
      JObj [(''id'', JInt 14), (''name'', JStr [1092, 1072, 1085, 1090, 1072, 1089, 1090, 1080, 1082, 1072, 32, 1080, 32, 1092, 1101, 1085, 1090, 1077, 1079, 1080])]])]"

fun demo_http :: "nat \<Rightarrow> request \<Rightarrow> json option" where
  "demo_http n (Search_movie q page) = Some demo_page"
| "demo_http n (Discover_movie params) = Some demo_page"
| "demo_http n Genre_list = Some demo_genres"
| "demo_http n (Movie_details mid) = (if mid = JInt 3 then None else Some (demo_film mid))"

definition demo_env :: env where
  "demo_env = \<lparr>http = demo_http, clock = int, lower = demo_lower,
     float_of = (\<lambda>t. if t = [56] then Some (Finite 8 0) else None),
     float_str = (\<lambda>f. [56, 46, 48])\<rparr>"

text \<open>The same provider when every detail request fails.\<close>

fun silent_http :: "nat \<Rightarrow> request \<Rightarrow> json option" where
  "silent_http n (Movie_details mid) = None"
| "silent_http n rq = demo_http n rq"

definition silent_env :: env where
  "silent_env = demo_env\<lparr>http := silent_http\<rparr>"

definition empty_state :: state where
  "empty_state = \<lparr>users = [], searches = [], movies = [], requests = [], sent = [], ticks = 0\<rparr>"

definition demo_update :: update where
  "demo_update = \<lparr>effective_user = \<lparr>tg_id = 7, tg_username = None, tg_first_name = [65],
     tg_last_name = None\<rparr>, args = [[97, 98, 99]], message_text = [97, 98, 99]\<rparr>"

text \<open>One quick search on the empty database, and the same after the history was cleared.\<close>

definition searched_state :: state where
  "searched_state = snd (handle_message demo_env demo_update empty_state)"

definition cleared_state :: state where
  "cleared_state = snd (clear_history 7 searched_state)"

section \<open>Actions\<close>

lemma bindA_Inr: "m s = (Inr x, s1) \<Longrightarrow> bindA m f s = f x s1"
  by (simp add: bindA_def)

lemma bindA_Inl: "m s = (Inl e, s1) \<Longrightarrow> bindA m f s = (Inl e, s1)"
  by (simp add: bindA_def)

lemma bindA_cases:
  assumes "bindA m f s = (r, s')"
  obtains (raised) e where "m s = (Inl e, s')" "r = Inl e"
        | (returned) x s1 where "m s = (Inr x, s1)" "f x s1 = (r, s')"
  using assms by (auto simp: bindA_def split: prod.splits sum.splits)

lemma fold_max_bounds: "(k::nat) \<le> fold max ids k \<and> (\<forall>i\<in>set ids. i \<le> fold max ids k)"
proof (induction ids arbitrary: k)
  case Nil
  show ?case by simp
next
  case (Cons a ids)
  from Cons.IH [of "max a k"] show ?case by auto
qed

lemma next_id_fresh: "next_id ids \<notin> set ids"
proof
  assume "next_id ids \<in> set ids"
  with fold_max_bounds [of 0 ids] have "next_id ids \<le> fold max ids 0" by blast
  then show False by (simp add: next_id_def)
qed

lemma MovieResult_create_cases:
  assumes "MovieResult_create srch m s = (r, s')"
  shows "(\<exists>e. r = Inl e \<and> s' = s) \<or>
         (r = Inr () \<and> (\<exists>row. s' = s\<lparr>movies := movies s @ [row]\<rparr> \<and> search row = srch \<and>
            snapshot_of srch m row))"
proof (cases "py_get m ''id'' JNull")
  case (Inl e)
  with assms show ?thesis by (auto simp: MovieResult_create_def liftA_def)
next
  case mid: (Inr mid)
  show ?thesis
  proof (cases "joined_genres m")
    case (Inl e)
    with assms mid show ?thesis by (auto simp: MovieResult_create_def liftA_def)
  next
    case (Inr gn)
    with assms mid show ?thesis
      by (auto simp: MovieResult_create_def Let_def snapshot_of_def movie_row_def get_or_def
               split: if_splits)
  qed
qed

lemma create_movie_results_cases:
  "create_movie_results srch ms s = (r, s') \<Longrightarrow>
     \<exists>rows. s' = s\<lparr>movies := movies s @ rows\<rparr> \<and> (\<forall>row\<in>set rows. search row = srch) \<and>
       (r = Inr () \<longrightarrow> list_all2 (snapshot_of srch) ms rows)"
proof (induction ms arbitrary: s)
  case Nil
  then show ?case by (auto simp: returnA_def)
next
  case (Cons m ms)
  from Cons.prems have b: "bindA (MovieResult_create srch m) (\<lambda>_. create_movie_results srch ms) s = (r, s')"
    by simp
  from b show ?case
  proof (cases rule: bindA_cases)
    case (raised e)
    from MovieResult_create_cases [OF raised(1)] have "s' = s" by auto
    with raised show ?thesis by (intro exI [of _ "[]"]) simp
  next
    case (returned x s1)
    from MovieResult_create_cases [OF returned(1)] obtain row where
      row: "s1 = s\<lparr>movies := movies s @ [row]\<rparr>" "search row = srch" "snapshot_of srch m row"
      by auto
    from Cons.IH [OF returned(2)] obtain rows where
      rows: "s' = s1\<lparr>movies := movies s1 @ rows\<rparr>" "\<forall>row\<in>set rows. search row = srch"
        "r = Inr () \<longrightarrow> list_all2 (snapshot_of srch) ms rows"
      by blast
    show ?thesis
      using row rows by (intro exI [of _ "row # rows"]) simp
  qed
qed

lemma SearchHistory_create_run:
  "SearchHistory_create env user stype q n s =
     (Inr (next_id (map search_id (searches s))),
      s\<lparr>ticks := Suc (ticks s), searches := searches s @ [new_entry env user stype q n s]\<rparr>)"
  by (simp add: SearchHistory_create_def bindA_def now_def Let_def new_entry_def)

lemma save_search_history_cases:
  assumes "save_search_history env user stype q results s = (r, s')"
  shows "(\<exists>e. r = Inl e \<and> s' = s\<lparr>ticks := Suc (ticks s)\<rparr>) \<or>
         (r = Inr () \<and> (\<exists>rows.
            s' = s\<lparr>ticks := Suc (ticks s),
                   searches := searches s @ [new_entry env user stype q (int (length results)) s],
                   movies := movies s @ rows\<rparr> \<and>
            (\<forall>row\<in>set rows. search row = next_id (map search_id (searches s))) \<and>
            list_all2 (snapshot_of (next_id (map search_id (searches s)))) results rows))"
proof -
  let ?sid = "next_id (map search_id (searches s))"
  let ?s1 = "s\<lparr>ticks := Suc (ticks s), searches := searches s @ [new_entry env user stype q (int (length results)) s]\<rparr>"
  obtain r2 s2 where body: "create_movie_results ?sid results ?s1 = (r2, s2)"
    by (cases "create_movie_results ?sid results ?s1")
  from create_movie_results_cases [OF body] obtain rows where
    rows: "s2 = ?s1\<lparr>movies := movies ?s1 @ rows\<rparr>" "\<forall>row\<in>set rows. search row = ?sid"
      "r2 = Inr () \<longrightarrow> list_all2 (snapshot_of ?sid) results rows"
    by blast
  have run: "save_search_history env user stype q results s =
      (case r2 of Inl e \<Rightarrow> (Inl e, s2\<lparr>users := users s, searches := searches s, movies := movies s\<rparr>)
       | Inr x \<Rightarrow> (Inr x, s2))"
    using body
    by (simp add: save_search_history_def atomic_def bindA_def SearchHistory_create_run
             split: sum.splits)
  show ?thesis
  proof (cases r2)
    case (Inl e)
    with run assms rows(1) show ?thesis by auto
  next
    case (Inr u)
    with run assms rows show ?thesis by auto
  qed
qed


lemma get_or_create_user_run:
  "\<exists>uid s1. get_or_create_user env upd s = (Inr uid, s1) \<and> searches s1 = searches s \<and>
     movies s1 = movies s \<and> requests s1 = requests s \<and> sent s1 = sent s"
  by (cases "find (\<lambda>u. telegram_id u = tg_id (effective_user upd)) (users s)")
     (simp_all add: get_or_create_user_def Let_def bindA_def now_def)

lemma fetch_details_cases:
  "fetch_details env page s = (r, s') \<Longrightarrow>
     \<exists>rqs. s' = s\<lparr>requests := requests s @ rqs\<rparr> \<and> (\<forall>ds. r = Inr ds \<longrightarrow> length ds \<le> length page)"
proof (induction page arbitrary: s r s')
  case Nil
  then show ?case by (auto simp: returnA_def intro: exI [of _ "[]"])
next
  case (Cons m page)
  show ?case
  proof (cases "subscript m ''id''")
    case (Inl e)
    with Cons.prems show ?thesis
      by (auto simp: bindA_def liftA_def intro: exI [of _ "[]"])
  next
    case (Inr mid)
    let ?s1 = "s\<lparr>requests := requests s @ [Movie_details mid]\<rparr>"
    obtain r2 s2 where rest: "fetch_details env page ?s1 = (r2, s2)"
      by (cases "fetch_details env page ?s1")
    from Cons.IH [OF rest] obtain rqs where
      rqs: "s2 = ?s1\<lparr>requests := requests ?s1 @ rqs\<rparr>" "\<forall>ds. r2 = Inr ds \<longrightarrow> length ds \<le> length page"
      by blast
    from Cons.prems Inr rest have "s' = s2 \<and> (\<forall>ds. r = Inr ds \<longrightarrow> (\<exists>ds2. r2 = Inr ds2 \<and> length ds \<le> Suc (length ds2)))"
      by (auto simp: bindA_def liftA_def get_movie_details_def http_get_def returnA_def
               split: sum.splits if_splits)
    with rqs show ?thesis
      by (intro exI [of _ "Movie_details mid # rqs"]) fastforce
  qed
qed


lemma is_int_E: "is_int v \<Longrightarrow> \<exists>i. v = JInt i"
  by (cases v) simp_all

lemma is_str_E: "is_str v \<Longrightarrow> \<exists>t. v = JStr t"
  by (cases v) simp_all

lemma is_bool_E: "is_bool v \<Longrightarrow> \<exists>b. v = JBool b"
  by (cases v) simp_all

lemma required_E: "required ok kvs key \<Longrightarrow> \<exists>v. map_of kvs key = Some v \<and> ok v"
  by (cases "map_of kvs key") (simp_all add: required_def)


lemma genre_entry_name:
  assumes "genre_entry g" shows "subscript g ''name'' = Inr (JStr (name_of g))"
proof -
  from assms obtain kvs where g: "g = JObj kvs" by (cases g) simp_all
  with assms have "required is_str kvs ''name''" by simp
  from required_E [OF this] obtain v where v: "map_of kvs ''name'' = Some v" "is_str v" by blast
  from is_str_E [OF v(2)] obtain t where "v = JStr t" ..
  with g v show ?thesis by (simp add: name_of_def)
qed

lemma genre_entry_id:
  assumes "genre_entry g" shows "\<exists>i. subscript g ''id'' = Inr (JInt i)"
proof -
  from assms obtain kvs where g: "g = JObj kvs" by (cases g) simp_all
  with assms have "required is_int kvs ''id''" by simp
  from required_E [OF this] obtain v where v: "map_of kvs ''id'' = Some v" "is_int v" by blast
  from is_int_E [OF v(2)] obtain i where "v = JInt i" ..
  with g v show ?thesis by simp
qed











lemma send_results_cases:
  "send_results ms s = (r, s') \<Longrightarrow> \<exists>rs. s' = s\<lparr>sent := sent s @ rs\<rparr> \<and> list_all movie_reply rs"
proof (induction ms arbitrary: s)
  case Nil
  then show ?case by (auto simp: returnA_def intro: exI [of _ "[]"])
next
  case (Cons m ms)
  show ?case
  proof (cases "format_movie_message m")
    case (Inl e)
    with Cons.prems show ?thesis by (auto simp: bindA_def liftA_def intro: exI [of _ "[]"])
  next
    case msg: (Inr msg)
    show ?thesis
    proof (cases "py_get m ''poster_path'' JNull")
      case (Inl e)
      with Cons.prems msg show ?thesis by (auto simp: bindA_def liftA_def intro: exI [of _ "[]"])
    next
      case (Inr poster)
      let ?r = "if truthy poster then Movie_photo poster msg else Movie_text msg"
      let ?s1 = "s\<lparr>sent := sent s @ [?r]\<rparr>"
      from Cons.prems msg Inr have "send_results ms ?s1 = (r, s')"
        by (auto simp: bindA_def liftA_def send_movie_def reply_text_def split: if_splits)
      from Cons.IH [OF this] obtain rs where "s' = ?s1\<lparr>sent := sent ?s1 @ rs\<rparr>" "list_all movie_reply rs"
        by blast
      then show ?thesis by (intro exI [of _ "?r # rs"]) simp
    qed
  qed
qed


section \<open>The commands\<close>

lemma slice_to_page: "slice_to xs MOVIES_PER_PAGE = take 5 xs"
  by (simp add: slice_to_def MOVIES_PER_PAGE_def)

lemma first_page_length: "first_page results = Inr page \<Longrightarrow> length page \<le> 5"
  by (auto simp: first_page_def slice_to_page split: sum.splits json.splits)

lemma show_page_empty:
  "no_results results = Inr True \<Longrightarrow>
     show_page env user stype q nf results s = (Inr (), s\<lparr>sent := sent s @ [nf]\<rparr>)"
  by (simp add: show_page_def bindA_def liftA_def reply_text_def)

lemma show_page_cases:
  assumes "show_page env user stype q nf results s = (r, s')"
  shows "users s' = users s \<and>
    ((searches s' = searches s \<and> movies s' = movies s) \<or>
     (\<exists>e rows. searches s' = searches s @ [e] \<and> result_count e = int (length rows) \<and>
        length rows \<le> 5 \<and> movies s' = movies s @ rows \<and>
        (\<forall>row\<in>set rows. search row = search_id e)))"
proof (cases "no_results results")
  case (Inl e)
  with assms show ?thesis by (auto simp: show_page_def bindA_def liftA_def)
next
  case empty: (Inr nothing)
  show ?thesis
  proof (cases nothing)
    case True
    with empty have "no_results results = Inr True" by simp
    from show_page_empty [OF this] assms show ?thesis by auto
  next
    case False
    show ?thesis
    proof (cases "first_page results")
      case (Inl e)
      with assms empty False show ?thesis by (auto simp: show_page_def bindA_def liftA_def)
    next
      case page: (Inr page)
      obtain r1 s1 where fetch: "fetch_details env page s = (r1, s1)"
        by (cases "fetch_details env page s")
      from fetch_details_cases [OF fetch] obtain rqs where
        s1: "s1 = s\<lparr>requests := requests s @ rqs\<rparr>" and
        len: "\<forall>ds. r1 = Inr ds \<longrightarrow> length ds \<le> length page" by blast
      show ?thesis
      proof (cases r1)
        case (Inl e)
        with assms empty False page fetch s1 show ?thesis
          by (auto simp: show_page_def bindA_def liftA_def)
      next
        case ds: (Inr ds)
        with len first_page_length [OF page] have bound: "length ds \<le> 5" by auto
        obtain r2 s2 where save: "save_search_history env user stype q ds s1 = (r2, s2)"
          by (cases "save_search_history env user stype q ds s1")
        from assms empty False page fetch ds save
        have rest: "(case r2 of Inl e \<Rightarrow> (Inl e, s2) | Inr u \<Rightarrow> send_results ds s2) = (r, s')"
          by (simp add: show_page_def bindA_def liftA_def)
        from save_search_history_cases [OF save] show ?thesis
        proof
          assume "\<exists>e. r2 = Inl e \<and> s2 = s1\<lparr>ticks := Suc (ticks s1)\<rparr>"
          with rest s1 show ?thesis by auto
        next
          assume "r2 = Inr () \<and> (\<exists>rows.
            s2 = s1\<lparr>ticks := Suc (ticks s1),
                   searches := searches s1 @ [new_entry env user stype q (int (length ds)) s1],
                   movies := movies s1 @ rows\<rparr> \<and>
            (\<forall>row\<in>set rows. search row = next_id (map search_id (searches s1))) \<and>
            list_all2 (snapshot_of (next_id (map search_id (searches s1)))) ds rows)"
          then obtain rows where r2: "r2 = Inr ()" and
            s2: "s2 = s1\<lparr>ticks := Suc (ticks s1),
                   searches := searches s1 @ [new_entry env user stype q (int (length ds)) s1],
                   movies := movies s1 @ rows\<rparr>" and
            own: "\<forall>row\<in>set rows. search row = next_id (map search_id (searches s1))" and
            snap: "list_all2 (snapshot_of (next_id (map search_id (searches s1)))) ds rows"
            by blast
          from rest r2 have "send_results ds s2 = (r, s')" by simp
          from send_results_cases [OF this] obtain rs where s': "s' = s2\<lparr>sent := sent s2 @ rs\<rparr>"
            by blast
          let ?e = "new_entry env user stype q (int (length ds)) s1"
          have "searches s' = searches s @ [?e] \<and> result_count ?e = int (length rows) \<and>
              length rows \<le> 5 \<and> movies s' = movies s @ rows \<and>
              (\<forall>row\<in>set rows. search row = search_id ?e)"
            using s' s2 s1 own bound list_all2_lengthD [OF snap] by (simp add: new_entry_def)
          moreover have "users s' = users s" using s' s2 s1 by simp
          ultimately show ?thesis by blast
        qed
      qed
    qed
  qed
qed


lemma http_get_run:
  "http_get env rq s =
     (Inr (case http env (length (requests s)) rq of None \<Rightarrow> JNull | Some body \<Rightarrow> body),
      s\<lparr>requests := requests s @ [rq]\<rparr>)"
  by (simp add: http_get_def)

lemma truthy_answer:
  "truthy (case a of None \<Rightarrow> JNull | Some body \<Rightarrow> body) \<Longrightarrow>
     a = Some (case a of None \<Rightarrow> JNull | Some body \<Rightarrow> body)"
  by (cases a) simp_all

lemma handle_message_short:
  assumes "\<not> 2 < length (message_text upd)" and "handle_message env upd s = (r, s')"
  shows "r = Inr () \<and> requests s' = requests s \<and> searches s' = searches s \<and>
    movies s' = movies s \<and> sent s' = sent s"
proof -
  from get_or_create_user_run [of env upd s] obtain user s1 where
    u: "get_or_create_user env upd s = (Inr user, s1)" and
    frame: "searches s1 = searches s" "movies s1 = movies s" "requests s1 = requests s" "sent s1 = sent s"
    by blast
  from assms u have "r = Inr () \<and> s' = s1"
    by (simp add: handle_message_def bindA_def Let_def returnA_def)
  with frame show ?thesis by simp
qed

lemma handle_message_long:
  assumes long: "2 < length (message_text upd)" and run: "handle_message env upd s = (r, s')"
  shows "(searches s' = searches s \<and> movies s' = movies s) \<or>
    (\<exists>mid details e row.
       requests s' = requests s @ [Search_movie (message_text upd) 1, Movie_details mid] \<and>
       http env (Suc (length (requests s))) (Movie_details mid) = Some details \<and>
       truthy details \<and>
       searches s' = searches s @ [e] \<and> result_count e = 1 \<and>
       movies s' = movies s @ [row] \<and> search row = search_id e \<and>
       snapshot_of (search_id e) details row)"
proof -
  let ?q = "message_text upd"
  from get_or_create_user_run [of env upd s] obtain user s1 where
    u: "get_or_create_user env upd s = (Inr user, s1)" and
    frame: "searches s1 = searches s" "movies s1 = movies s" "requests s1 = requests s" "sent s1 = sent s"
    by blast
  define s2 where "s2 = s1\<lparr>sent := sent s1 @ [Searching_quick ?q]\<rparr>"
  define results where
    "results = (case http env (length (requests s2)) (Search_movie ?q 1) of None \<Rightarrow> JNull | Some body \<Rightarrow> body)"
  define s3 where "s3 = s2\<lparr>requests := requests s2 @ [Search_movie ?q 1]\<rparr>"
  have a1: "reply_text (Searching_quick ?q) s1 = (Inr (), s2)"
    by (simp add: reply_text_def s2_def)
  have a2: "search_movies_by_title env ?q 1 s2 = (Inr results, s3)"
    by (simp add: search_movies_by_title_def http_get_run results_def s3_def)
  have tables3: "searches s3 = searches s" "movies s3 = movies s"
    "requests s3 = requests s @ [Search_movie ?q 1]"
    using frame by (simp_all add: s3_def s2_def)
  note start = handle_message_def bindA_def Let_def liftA_def
  show ?thesis
  proof (cases "no_results results")
    case (Inl e)
    with run long u a1 a2 tables3 show ?thesis by (auto simp: start)
  next
    case empty: (Inr none)
    show ?thesis
    proof (cases none)
      case True
      with empty run long u a1 a2 tables3 show ?thesis by (auto simp: start reply_text_def)
    next
      case False
      show ?thesis
      proof (cases "first_result results")
        case (Inl e)
        with empty False run long u a1 a2 tables3 show ?thesis by (auto simp: start)
      next
        case md: (Inr movie_data)
        show ?thesis
        proof (cases "subscript movie_data ''id''")
          case (Inl e)
          with md empty False run long u a1 a2 tables3 show ?thesis by (auto simp: start)
        next
          case mid: (Inr mid)
          define details where
            "details = (case http env (length (requests s3)) (Movie_details mid) of None \<Rightarrow> JNull | Some body \<Rightarrow> body)"
          define s4 where "s4 = s3\<lparr>requests := requests s3 @ [Movie_details mid]\<rparr>"
          have a3: "get_movie_details env mid s3 = (Inr details, s4)"
            by (simp add: get_movie_details_def http_get_run details_def s4_def)
          have tables4: "searches s4 = searches s" "movies s4 = movies s"
            "requests s4 = requests s @ [Search_movie ?q 1, Movie_details mid]"
            using tables3 by (simp_all add: s4_def)
          note facts = mid md empty False run long u a1 a2 a3
          show ?thesis
          proof (cases "truthy details")
            case False
            with facts tables4 show ?thesis by (auto simp: start reply_text_def)
          next
            case True
            then have answered: "http env (Suc (length (requests s))) (Movie_details mid) = Some details"
              unfolding details_def using truthy_answer tables3(3) by fastforce
            show ?thesis
            proof (cases "format_movie_message details")
              case (Inl e)
              with facts True tables4 show ?thesis by (auto simp: start)
            next
              case msg: (Inr msg)
              show ?thesis
              proof (cases "py_get details ''poster_path'' JNull")
                case (Inl e)
                with msg facts True tables4 show ?thesis by (auto simp: start)
              next
                case poster: (Inr poster)
                obtain r5 s5 where save:
                  "save_search_history env user (ustr_of ''title'') ?q [details] s4 = (r5, s5)"
                  by (cases "save_search_history env user (ustr_of ''title'') ?q [details] s4")
                from facts True msg poster save
                have rest: "(case r5 of Inl e \<Rightarrow> (Inl e, s5) | Inr x \<Rightarrow> send_movie poster msg s5) = (r, s')"
                  by (simp add: start)
                from save_search_history_cases [OF save] show ?thesis
                proof
                  assume "\<exists>e. r5 = Inl e \<and> s5 = s4\<lparr>ticks := Suc (ticks s4)\<rparr>"
                  with rest tables4 show ?thesis by auto
                next
                  assume "r5 = Inr () \<and> (\<exists>rows.
                    s5 = s4\<lparr>ticks := Suc (ticks s4),
                      searches := searches s4 @ [new_entry env user (ustr_of ''title'') ?q (int (length [details])) s4],
                      movies := movies s4 @ rows\<rparr> \<and>
                    (\<forall>row\<in>set rows. search row = next_id (map search_id (searches s4))) \<and>
                    list_all2 (snapshot_of (next_id (map search_id (searches s4)))) [details] rows)"
                  then obtain rows where r5: "r5 = Inr ()" and
                    s5: "s5 = s4\<lparr>ticks := Suc (ticks s4),
                      searches := searches s4 @ [new_entry env user (ustr_of ''title'') ?q (int (length [details])) s4],
                      movies := movies s4 @ rows\<rparr>" and
                    own: "\<forall>row\<in>set rows. search row = next_id (map search_id (searches s4))" and
                    snap: "list_all2 (snapshot_of (next_id (map search_id (searches s4)))) [details] rows"
                    by blast
                  from snap obtain row where rows: "rows = [row]"
                    and row: "snapshot_of (next_id (map search_id (searches s4))) details row"
                    by (auto simp: list_all2_Cons1)
                  let ?e = "new_entry env user (ustr_of ''title'') ?q (int (length [details])) s4"
                  from rest r5 have "send_movie poster msg s5 = (r, s')" by simp
                  then have s': "searches s' = searches s5" "movies s' = movies s5"
                    "requests s' = requests s5"
                    by (auto simp: send_movie_def reply_text_def split: if_splits)
                  have "requests s' = requests s @ [Search_movie ?q 1, Movie_details mid] \<and>
                    searches s' = searches s @ [?e] \<and> result_count ?e = 1 \<and>
                    movies s' = movies s @ [row] \<and> search row = search_id ?e \<and>
                    snapshot_of (search_id ?e) details row"
                    using s' s5 tables4 rows row own by (simp add: new_entry_def)
                  with answered True show ?thesis by blast
                qed
              qed
            qed
          qed
        qed
      qed
    qed
  qed
qed




lemma get_genre_id_frame:
  "\<exists>r. get_genre_id env g s = (r, s\<lparr>requests := requests s @ [Genre_list]\<rparr>)"
  by (cases "http env (length (requests s)) Genre_list") (simp_all add: get_genre_id_def)

lemma add_genre_frame:
  assumes "add_genre env genre params s = (r, s1)"
  shows "searches s1 = searches s \<and> movies s1 = movies s"
proof (cases genre)
  case None
  with assms show ?thesis by (simp add: add_genre_def returnA_def)
next
  case (Some g)
  show ?thesis
  proof (cases "g = []")
    case True
    with Some assms show ?thesis by (simp add: add_genre_def returnA_def)
  next
    case False
    from get_genre_id_frame [of env g s] obtain r0 where
      "get_genre_id env g s = (r0, s\<lparr>requests := requests s @ [Genre_list]\<rparr>)" ..
    with Some False assms show ?thesis
      by (cases r0) (auto simp: add_genre_def bindA_def returnA_def)
  qed
qed

lemma discover_frame:
  assumes "bindA (add_genre env genre params) (\<lambda>ps. http_get env (Discover_movie ps)) s = (r, s1)"
  shows "searches s1 = searches s \<and> movies s1 = movies s"
  using assms
proof (cases rule: bindA_cases)
  case (raised e)
  from add_genre_frame [OF raised(1)] show ?thesis .
next
  case (returned ps s0)
  from add_genre_frame [OF returned(1)] returned(2) show ?thesis
    by (auto simp: http_get_def)
qed

lemma show_page_bound:
  assumes "show_page env user stype q nf results s1 = (r, s')" and "searches s1 = searches s"
  shows "searches s' = searches s \<or>
    (\<exists>e. searches s' = searches s @ [e] \<and> 0 \<le> result_count e \<and> result_count e \<le> MOVIES_PER_PAGE)"
  using show_page_cases [OF assms(1)] assms(2) by (auto simp: MOVIES_PER_PAGE_def)

lemma movie_search_command_bound:
  assumes "movie_search_command env upd s = (r, s')"
  shows "searches s' = searches s \<or>
    (\<exists>e. searches s' = searches s @ [e] \<and> 0 \<le> result_count e \<and> result_count e \<le> MOVIES_PER_PAGE)"
proof -
  from get_or_create_user_run [of env upd s] obtain user s1 where
    u: "get_or_create_user env upd s = (Inr user, s1)" and frame: "searches s1 = searches s"
    by blast
  show ?thesis
  proof (cases "args upd = []")
    case True
    with assms u frame show ?thesis
      by (auto simp: movie_search_command_def bindA_def reply_text_def)
  next
    case False
    let ?q = "join (ustr_of '' '') (args upd)"
    obtain results s3 where search:
      "bindA (reply_text (Searching_title ?q)) (\<lambda>_. search_movies_by_title env ?q 1) s1 = (Inr results, s3)"
      and s3: "searches s3 = searches s1"
      by (simp add: bindA_def reply_text_def search_movies_by_title_def http_get_def)
    from assms u False search
    have "show_page env user (ustr_of ''title'') ?q Movies_not_found_query results s3 = (r, s')"
      by (simp add: movie_search_command_def bindA_def Let_def split: prod.splits sum.splits)
    moreover from s3 frame have "searches s3 = searches s" by simp
    ultimately show ?thesis by (rule show_page_bound)
  qed
qed

lemma movie_by_rating_command_bound:
  assumes "movie_by_rating_command env upd s = (r, s')"
  shows "searches s' = searches s \<or>
    (\<exists>e. searches s' = searches s @ [e] \<and> 0 \<le> result_count e \<and> result_count e \<le> MOVIES_PER_PAGE)"
proof -
  from get_or_create_user_run [of env upd s] obtain user s1 where
    u: "get_or_create_user env upd s = (Inr user, s1)" and frame: "searches s1 = searches s"
    by blast
  show ?thesis
  proof (cases "args upd")
    case Nil
    with assms u frame show ?thesis
      by (auto simp: movie_by_rating_command_def bindA_def reply_text_def)
  next
    case (Cons a others)
    show ?thesis
    proof (cases "float_of env a")
      case None
      with Cons assms u frame show ?thesis
        by (auto simp: movie_by_rating_command_def bindA_def reply_text_def)
    next
      case (Some min_rating)
      define genre where "genre = (case others of [] \<Rightarrow> None | g # x \<Rightarrow> Some g)"
      define s2 where "s2 = s1\<lparr>sent := sent s1 @ [Searching_rating min_rating genre]\<rparr>"
      obtain r3 s3 where search: "search_movies_by_rating env min_rating genre 1 s2 = (r3, s3)"
        by (cases "search_movies_by_rating env min_rating genre 1 s2")
      then have s3: "searches s3 = searches s"
        using discover_frame [of env genre "rating_params min_rating 1" s2 r3 s3] frame
        by (simp add: search_movies_by_rating_def s2_def)
      show ?thesis
      proof (cases r3)
        case (Inl e)
        with assms u Cons Some search s3 show ?thesis
          by (auto simp: movie_by_rating_command_def bindA_def Let_def reply_text_def
                genre_def s2_def)
      next
        case (Inr results)
        with assms u Cons Some search
        have "\<exists>q. show_page env user (ustr_of ''rating'') q Movies_not_found_params results s3 = (r, s')"
          by (auto simp: movie_by_rating_command_def bindA_def Let_def reply_text_def
                genre_def s2_def)
        then obtain q where
          "show_page env user (ustr_of ''rating'') q Movies_not_found_params results s3 = (r, s')" ..
        from show_page_bound [OF this s3] show ?thesis .
      qed
    qed
  qed
qed

lemma handle_budget_search_bound:
  assumes "handle_budget_search env upd budget_type s = (r, s')"
  shows "searches s' = searches s \<or>
    (\<exists>e. searches s' = searches s @ [e] \<and> 0 \<le> result_count e \<and> result_count e \<le> MOVIES_PER_PAGE)"
proof -
  from get_or_create_user_run [of env upd s] obtain user s1 where
    u: "get_or_create_user env upd s = (Inr user, s1)" and frame: "searches s1 = searches s"
    by blast
  define genre where "genre = (if args upd = [] then None else Some (join (ustr_of '' '') (args upd)))"
  define s2 where "s2 = s1\<lparr>sent := sent s1 @ [Searching_budget (ustr_of budget_type) genre]\<rparr>"
  obtain r3 s3 where search: "search_movies_by_budget env budget_type genre 1 s2 = (r3, s3)"
    by (cases "search_movies_by_budget env budget_type genre 1 s2")
  then have s3: "searches s3 = searches s"
    using discover_frame [of env genre "budget_params budget_type 1" s2 r3 s3] frame
    by (simp add: search_movies_by_budget_def s2_def)
  show ?thesis
  proof (cases r3)
    case (Inl e)
    with assms u search s3 show ?thesis
      by (auto simp: handle_budget_search_def bindA_def Let_def reply_text_def genre_def s2_def)
  next
    case (Inr results)
    with assms u search
    have "\<exists>q. show_page env user (ustr_of (''budget_'' @ budget_type)) q Movies_not_found_params results s3 = (r, s')"
      by (auto simp: handle_budget_search_def bindA_def Let_def reply_text_def genre_def s2_def)
    then obtain q where
      "show_page env user (ustr_of (''budget_'' @ budget_type)) q Movies_not_found_params results s3 = (r, s')" ..
    from show_page_bound [OF this s3] show ?thesis .
  qed
qed

lemma handle_message_bound:
  assumes "handle_message env upd s = (r, s')"
  shows "searches s' = searches s \<or>
    (\<exists>e. searches s' = searches s @ [e] \<and> 0 \<le> result_count e \<and> result_count e \<le> MOVIES_PER_PAGE)"
proof (cases "2 < length (message_text upd)")
  case False
  from handle_message_short [OF False assms] show ?thesis by simp
next
  case True
  from handle_message_long [OF True assms] show ?thesis
    by (auto simp: MOVIES_PER_PAGE_def)
qed

lemma genre_entry_id_of:
  assumes "genre_entry g" shows "subscript g ''id'' = Inr (id_of g)"
  using genre_entry_id [OF assms] by (auto simp: id_of_def)

lemma find_genre_first:
  assumes "list_all genre_entry gs"
  shows "(\<exists>i<length gs. sublist (lw name) (lw (name_of (gs ! i))) \<and>
            (\<forall>j<i. \<not> sublist (lw name) (lw (name_of (gs ! j)))) \<and>
            find_genre lw name gs = Inr (id_of (gs ! i))) \<or>
         ((\<forall>g\<in>set gs. \<not> sublist (lw name) (lw (name_of g))) \<and> find_genre lw name gs = Inr JNull)"
  using assms
proof (induction gs)
  case Nil
  show ?case by simp
next
  case (Cons g gs)
  from Cons.prems have g: "genre_entry g" and rest: "list_all genre_entry gs" by simp_all
  note nm = genre_entry_name [OF g]
  show ?case
  proof (cases "sublist (lw name) (lw (name_of g))")
    case True
    with nm genre_entry_id_of [OF g] have "find_genre lw name (g # gs) = Inr (id_of g)" by simp
    with True have "0 < length (g # gs) \<and> sublist (lw name) (lw (name_of ((g # gs) ! 0))) \<and>
        (\<forall>j<0. \<not> sublist (lw name) (lw (name_of ((g # gs) ! j)))) \<and>
        find_genre lw name (g # gs) = Inr (id_of ((g # gs) ! 0))" by simp
    then show ?thesis by blast
  next
    case False
    with nm have step: "find_genre lw name (g # gs) = find_genre lw name gs" by simp
    from Cons.IH [OF rest] show ?thesis
    proof
      assume "\<exists>i<length gs. sublist (lw name) (lw (name_of (gs ! i))) \<and>
            (\<forall>j<i. \<not> sublist (lw name) (lw (name_of (gs ! j)))) \<and>
            find_genre lw name gs = Inr (id_of (gs ! i))"
      then obtain i where i: "i < length gs" "sublist (lw name) (lw (name_of (gs ! i)))"
        "\<forall>j<i. \<not> sublist (lw name) (lw (name_of (gs ! j)))"
        "find_genre lw name gs = Inr (id_of (gs ! i))" by blast
      have earlier: "\<forall>j<Suc i. \<not> sublist (lw name) (lw (name_of ((g # gs) ! j)))"
      proof (intro allI impI)
        fix j assume "j < Suc i"
        then show "\<not> sublist (lw name) (lw (name_of ((g # gs) ! j)))"
          using False i(3) by (cases j) simp_all
      qed
      from i step earlier have "Suc i < length (g # gs) \<and>
          sublist (lw name) (lw (name_of ((g # gs) ! Suc i))) \<and>
          (\<forall>j<Suc i. \<not> sublist (lw name) (lw (name_of ((g # gs) ! j)))) \<and>
          find_genre lw name (g # gs) = Inr (id_of ((g # gs) ! Suc i))" by simp
      then show ?thesis by blast
    next
      assume "(\<forall>g\<in>set gs. \<not> sublist (lw name) (lw (name_of g))) \<and> find_genre lw name gs = Inr JNull"
      with False step show ?thesis by simp
    qed
  qed
qed

lemma get_genre_id_run:
  assumes "http env (length (requests s)) Genre_list = Some body"
    and "py_get body ''genres'' (JList []) = Inr (JList gs)"
  shows "get_genre_id env name s =
    (find_genre (lower env) name gs, s\<lparr>requests := requests s @ [Genre_list]\<rparr>)"
  using assms by (simp add: get_genre_id_def)

lemma add_genre_none:
  assumes "name \<noteq> []" and "fst (get_genre_id env name s) = Inr JNull"
  shows "add_genre env (Some name) params s = (Inr params, s\<lparr>requests := requests s @ [Genre_list]\<rparr>)"
proof -
  from get_genre_id_frame [of env name s] assms(2)
  have "get_genre_id env name s = (Inr JNull, s\<lparr>requests := requests s @ [Genre_list]\<rparr>)"
    by auto
  with assms(1) show ?thesis by (simp add: add_genre_def bindA_def returnA_def)
qed

section \<open>The history write\<close>

text \<open>
  C8. The write of \<open>save_search_history\<close> is all or nothing. Whatever the movie list,
  it either returns, and then exactly one history entry was added whose
  \<open>result_count\<close> is the length of the list, together with one movie row per movie, in
  the order of the list and each referencing the new entry; or it raises, and then the
  three tables are what they were before the call. An entry with some of its rows
  missing is never left behind.
\<close>

theorem save_search_history_all_or_nothing:
  assumes "save_search_history env user stype q results s = (r, s')"
  shows "(r = Inr () \<and>
          (\<exists>e rows. searches s' = searches s @ [e] \<and> result_count e = int (length results) \<and>
             movies s' = movies s @ rows \<and> length rows = length results \<and>
             list_all2 (snapshot_of (search_id e)) results rows \<and>
             (\<forall>row\<in>set rows. search row = search_id e))) \<or>
         ((\<exists>err. r = Inl err) \<and> users s' = users s \<and> searches s' = searches s \<and>
            movies s' = movies s)"
proof -
  from save_search_history_cases [OF assms] show ?thesis
  proof
    assume "\<exists>e. r = Inl e \<and> s' = s\<lparr>ticks := Suc (ticks s)\<rparr>"
    then show ?thesis by auto
  next
    assume "r = Inr () \<and> (\<exists>rows.
            s' = s\<lparr>ticks := Suc (ticks s),
                   searches := searches s @ [new_entry env user stype q (int (length results)) s],
                   movies := movies s @ rows\<rparr> \<and>
            (\<forall>row\<in>set rows. search row = next_id (map search_id (searches s))) \<and>
            list_all2 (snapshot_of (next_id (map search_id (searches s)))) results rows)"
    then obtain rows where r: "r = Inr ()" and
      s': "s' = s\<lparr>ticks := Suc (ticks s),
                   searches := searches s @ [new_entry env user stype q (int (length results)) s],
                   movies := movies s @ rows\<rparr>" and
      own: "\<forall>row\<in>set rows. search row = next_id (map search_id (searches s))" and
      snap: "list_all2 (snapshot_of (next_id (map search_id (searches s)))) results rows"
      by blast
    let ?e = "new_entry env user stype q (int (length results)) s"
    have id: "search_id ?e = next_id (map search_id (searches s))" by (simp add: new_entry_def)
    have "searches s' = searches s @ [?e] \<and> result_count ?e = int (length results) \<and>
             movies s' = movies s @ rows \<and> length rows = length results \<and>
             list_all2 (snapshot_of (search_id ?e)) results rows \<and>
             (\<forall>row\<in>set rows. search row = search_id ?e)"
      using s' own snap id list_all2_lengthD [OF snap] by (simp add: new_entry_def)
    with r show ?thesis by blast
  qed
qed

text \<open>
  The second movie of this write has no id: the insert of its row fails after the entry
  and the first row were written, and both are rolled back.
\<close>

theorem save_search_history_all_or_nothing_witness:
  "save_search_history demo_env 1 [116] [97] [demo_film (JInt 1), JObj []] empty_state =
     (Inl IntegrityError, empty_state\<lparr>ticks := 1\<rparr>) \<and>
   searches (empty_state\<lparr>ticks := 1\<rparr>) = searches empty_state \<and>
   movies (empty_state\<lparr>ticks := 1\<rparr>) = movies empty_state"
proof -
  have run: "save_search_history demo_env 1 [116] [97] [demo_film (JInt 1), JObj []] empty_state =
     (Inl IntegrityError, empty_state\<lparr>ticks := 1\<rparr>)"
    by code_simp
  from save_search_history_all_or_nothing [OF run] show ?thesis using run by simp
qed

lemma unreferenced_next_id:
  assumes "\<forall>r\<in>set (movies s). search r \<in> search_id ` set (searches s)"
  shows "owned_rows (next_id (map search_id (searches s))) s = []"
proof -
  have "next_id (map search_id (searches s)) \<notin> search_id ` set (searches s)"
    using next_id_fresh [of "map search_id (searches s)"] by simp
  with assms have "\<forall>r\<in>set (movies s). search r \<noteq> next_id (map search_id (searches s))"
    by metis
  then show ?thesis by (simp add: owned_rows_def filter_empty_conv)
qed

text \<open>
  C2, as stated, fails. After one quick search and a clearing of the history the movie
  table still holds the row of the deleted entry 1; the next write creates an entry that
  gets the id 1 again, with \<open>result_count = 1\<close>, and two rows reference it.
\<close>

theorem save_search_history_stale_rows:
  "fst (save_search_history demo_env 1 [116] [97] [demo_film (JInt 2)] cleared_state) = Inr () \<and>
   map search_id (searches (snd (save_search_history demo_env 1 [116] [97] [demo_film (JInt 2)] cleared_state))) = [1] \<and>
   map result_count (searches (snd (save_search_history demo_env 1 [116] [97] [demo_film (JInt 2)] cleared_state))) = [1] \<and>
   length (owned_rows 1 (snd (save_search_history demo_env 1 [116] [97] [demo_film (JInt 2)] cleared_state))) = 2"
  by code_simp

text \<open>
  C2, amended. When no row of the movie table already references the id the new entry
  gets (as is the case whenever every row references an existing entry), the entry that
  \<open>save_search_history\<close> creates has a \<open>result_count\<close> equal to the number of rows
  that reference it, and these rows are the snapshots of the given movies, in the order
  of the list.
\<close>

theorem save_search_history_result_count:
  assumes "save_search_history env user stype q results s = (Inr (), s')"
    and "owned_rows (next_id (map search_id (searches s))) s = []"
  shows "\<exists>e rows. searches s' = searches s @ [e] \<and> movies s' = movies s @ rows \<and>
           owned_rows (search_id e) s' = rows \<and>
           result_count e = int (length (owned_rows (search_id e) s')) \<and>
           list_all2 (snapshot_of (search_id e)) results rows"
proof -
  let ?sid = "next_id (map search_id (searches s))"
  let ?e = "new_entry env user stype q (int (length results)) s"
  from save_search_history_cases [OF assms(1)] obtain rows where
    s': "s' = s\<lparr>ticks := Suc (ticks s), searches := searches s @ [?e], movies := movies s @ rows\<rparr>" and
    own: "\<forall>row\<in>set rows. search row = ?sid" and
    snap: "list_all2 (snapshot_of ?sid) results rows"
    by auto
  have id: "search_id ?e = ?sid" by (simp add: new_entry_def)
  from own have "filter (\<lambda>r. search r = ?sid) rows = rows" by (simp add: filter_id_conv)
  with assms(2) s' have owned: "owned_rows ?sid s' = rows" by (simp add: owned_rows_def)
  have "result_count ?e = int (length rows)"
    using list_all2_lengthD [OF snap] by (simp add: new_entry_def)
  with s' owned snap id show ?thesis by (intro exI [of _ ?e] exI [of _ rows]) simp
qed

theorem save_search_history_result_count_witness:
  "save_search_history demo_env 1 [116] [97] [demo_film (JInt 1), demo_film (JInt 2)] empty_state =
     (Inr (), snd (save_search_history demo_env 1 [116] [97] [demo_film (JInt 1), demo_film (JInt 2)] empty_state)) \<and>
   owned_rows (next_id (map search_id (searches empty_state))) empty_state = [] \<and>
   (\<exists>e rows. searches (snd (save_search_history demo_env 1 [116] [97] [demo_film (JInt 1), demo_film (JInt 2)] empty_state)) = searches empty_state @ [e] \<and>
      result_count e = 2 \<and> map movie_id rows = [JInt 1, JInt 2] \<and>
      owned_rows (search_id e) (snd (save_search_history demo_env 1 [116] [97] [demo_film (JInt 1), demo_film (JInt 2)] empty_state)) = rows)"
proof -
  let ?out = "save_search_history demo_env 1 [116] [97] [demo_film (JInt 1), demo_film (JInt 2)] empty_state"
  have run: "?out = (Inr (), snd ?out)" by code_simp
  have clean: "owned_rows (next_id (map search_id (searches empty_state))) empty_state = []"
    by code_simp
  have ids: "map movie_id (movies (snd ?out)) = [JInt 1, JInt 2]" by code_simp
  have none: "movies empty_state = []" by code_simp
  from save_search_history_result_count [OF run clean] obtain e rows where
    e: "searches (snd ?out) = searches empty_state @ [e]" "movies (snd ?out) = movies empty_state @ rows"
      "owned_rows (search_id e) (snd ?out) = rows"
      "result_count e = int (length (owned_rows (search_id e) (snd ?out)))"
    by blast
  from e(2) ids none have rows: "map movie_id rows = [JInt 1, JInt 2]" by simp
  then have "length rows = 2" by (metis length_map length_Cons list.size(3) numeral_2_eq_2)
  with e rows have "result_count e = 2" by simp
  with e rows have found: "\<exists>e rows. searches (snd ?out) = searches empty_state @ [e] \<and>
      result_count e = 2 \<and> map movie_id rows = [JInt 1, JInt 2] \<and>
      owned_rows (search_id e) (snd ?out) = rows" by auto
  show ?thesis by (rule conjI [OF run conjI [OF clean found]])
qed

section \<open>Clearing the history\<close>

lemma clear_history_run:
  assumes "fst (User_get tid s) = Inr user"
  shows "clear_history tid s =
    (Inr (), s\<lparr>searches := filter (\<lambda>e. search_user e \<noteq> user) (searches s),
               sent := sent s @ [History_cleared (length (entries_of user s))]\<rparr>)"
proof -
  from assms have "User_get tid s = (Inr user, s)"
    by (auto simp: User_get_def split: option.splits)
  then show ?thesis
    by (simp add: clear_history_def bindA_def delete_searches_def reply_text_def entries_of_def)
qed

text \<open>
  C3, as stated, fails. Clearing the history after one quick search deletes the entry 1
  and leaves its movie row, which still references the id 1.
\<close>

theorem clear_history_leaves_rows:
  "fst (clear_history 7 searched_state) = Inr () \<and>
   map search_id (searches searched_state) = [1] \<and>
   searches (snd (clear_history 7 searched_state)) = [] \<and>
   map search (movies (snd (clear_history 7 searched_state))) = [1]"
  by code_simp

text \<open>
  C3, amended. For a registered user \<open>clear_history\<close> removes exactly the history
  entries of that user and leaves the movie table as it is: the rows of the deleted
  entries stay.
\<close>

theorem clear_history_keeps_movies:
  assumes "fst (User_get tid s) = Inr user"
  shows "\<exists>s'. clear_history tid s = (Inr (), s') \<and>
           searches s' = filter (\<lambda>e. search_user e \<noteq> user) (searches s) \<and>
           movies s' = movies s"
  by (simp add: clear_history_run [OF assms])

theorem clear_history_keeps_movies_witness:
  "fst (User_get 7 searched_state) = Inr 1 \<and>
   (\<exists>s'. clear_history 7 searched_state = (Inr (), s') \<and>
      searches s' = filter (\<lambda>e. search_user e \<noteq> 1) (searches searched_state) \<and>
      movies s' = movies searched_state)"
proof -
  have u: "fst (User_get 7 searched_state) = Inr 1" by code_simp
  from clear_history_keeps_movies [OF u] u show ?thesis by blast
qed

text \<open>
  C4. For a registered user \<open>clear_history\<close> returns without error, reports the number
  of history entries the user owned before the call, and leaves no entry of the user, so
  that the query of \<open>history\<close> finds nothing; clearing again reports 0 and is no error
  either.
\<close>

theorem clear_history_count:
  assumes "fst (User_get tid s) = Inr user"
  shows "\<exists>s'. clear_history tid s = (Inr (), s') \<and>
           sent s' = sent s @ [History_cleared (length (entries_of user s))] \<and>
           entries_of user s' = [] \<and>
           recent_searches user s' = [] \<and>
           (\<exists>s''. clear_history tid s' = (Inr (), s'') \<and> sent s'' = sent s' @ [History_cleared 0])"
proof -
  let ?s' = "s\<lparr>searches := filter (\<lambda>e. search_user e \<noteq> user) (searches s),
               sent := sent s @ [History_cleared (length (entries_of user s))]\<rparr>"
  have first: "clear_history tid s = (Inr (), ?s')" by (rule clear_history_run [OF assms])
  have gone: "entries_of user ?s' = []" by (simp add: entries_of_def filter_empty_conv)
  then have none: "filter (\<lambda>e. search_user e = user) (searches ?s') = []"
    by (simp add: entries_of_def)
  have recent: "recent_searches user ?s' = []"
    unfolding recent_searches_def none by (simp add: slice_to_def)
  from assms have "fst (User_get tid ?s') = Inr user"
    by (auto simp: User_get_def split: option.splits)
  from clear_history_run [OF this] gone
  have "\<exists>s''. clear_history tid ?s' = (Inr (), s'') \<and> sent s'' = sent ?s' @ [History_cleared 0]"
    by simp
  with first gone recent show ?thesis by simp
qed

theorem clear_history_count_witness:
  "fst (User_get 7 searched_state) = Inr 1 \<and> length (entries_of 1 searched_state) = 1 \<and>
   (\<exists>s'. clear_history 7 searched_state = (Inr (), s') \<and>
      sent s' = sent searched_state @ [History_cleared 1] \<and> recent_searches 1 s' = [])"
proof -
  have u: "fst (User_get 7 searched_state) = Inr 1" by code_simp
  have n: "length (entries_of 1 searched_state) = 1" by code_simp
  from clear_history_count [OF u] n u show ?thesis by auto
qed

section \<open>The search command\<close>





text \<open>
  C1 does not hold on the code. When the page is not empty and every detail request
  fails, \<open>movie_search_command\<close> writes a history entry with \<open>result_count = 0\<close>, and
  it sends nothing after the announcement of the search: no report that nothing was
  found.
\<close>

theorem movie_search_command_all_details_fail:
  "fst (movie_search_command silent_env demo_update empty_state) = Inr () \<and>
   map result_count (searches (snd (movie_search_command silent_env demo_update empty_state))) = [0] \<and>
   movies (snd (movie_search_command silent_env demo_update empty_state)) = [] \<and>
   sent (snd (movie_search_command silent_env demo_update empty_state)) = [Searching_title [97, 98, 99]]"
  by code_simp

section \<open>The quick search\<close>

text \<open>
  C10. For a message of at most two characters \<open>handle_message\<close> returns at once: no
  request to the provider, no history entry, no movie row. For a longer message it
  either leaves the history and the movie table as they are, or the detail request for
  the first candidate was answered with a non-empty record, and then exactly one entry
  with \<open>result_count = 1\<close> and exactly one movie row, the snapshot of that record
  referencing the entry, were added. When that detail request fails, nothing is added.
\<close>

theorem handle_message_history:
  assumes "handle_message env upd s = (r, s')"
  shows "(length (message_text upd) \<le> 2 \<longrightarrow>
           r = Inr () \<and> requests s' = requests s \<and> searches s' = searches s \<and> movies s' = movies s) \<and>
         ((searches s' = searches s \<and> movies s' = movies s) \<or>
          (\<exists>mid details e row.
             2 < length (message_text upd) \<and>
             requests s' = requests s @ [Search_movie (message_text upd) 1, Movie_details mid] \<and>
             http env (Suc (length (requests s))) (Movie_details mid) = Some details \<and>
             truthy details \<and>
             searches s' = searches s @ [e] \<and> result_count e = 1 \<and>
             movies s' = movies s @ [row] \<and> search row = search_id e \<and>
             snapshot_of (search_id e) details row)) \<and>
         (\<forall>mid. requests s' = requests s @ [Search_movie (message_text upd) 1, Movie_details mid] \<and>
             http env (Suc (length (requests s))) (Movie_details mid) = None \<longrightarrow>
             searches s' = searches s \<and> movies s' = movies s)"
proof (cases "2 < length (message_text upd)")
  case False
  from handle_message_short [OF False assms] False show ?thesis by auto
next
  case True
  from handle_message_long [OF True assms] show ?thesis
  proof
    assume "searches s' = searches s \<and> movies s' = movies s"
    with True show ?thesis by auto
  next
    assume "\<exists>mid details e row.
       requests s' = requests s @ [Search_movie (message_text upd) 1, Movie_details mid] \<and>
       http env (Suc (length (requests s))) (Movie_details mid) = Some details \<and>
       truthy details \<and>
       searches s' = searches s @ [e] \<and> result_count e = 1 \<and>
       movies s' = movies s @ [row] \<and> search row = search_id e \<and>
       snapshot_of (search_id e) details row"
    then obtain mid details e row where
      w: "requests s' = requests s @ [Search_movie (message_text upd) 1, Movie_details mid]"
        "http env (Suc (length (requests s))) (Movie_details mid) = Some details"
        "truthy details" "searches s' = searches s @ [e]" "result_count e = 1"
        "movies s' = movies s @ [row]" "search row = search_id e"
        "snapshot_of (search_id e) details row" by blast
    have third: "\<forall>m. requests s' = requests s @ [Search_movie (message_text upd) 1, Movie_details m] \<and>
             http env (Suc (length (requests s))) (Movie_details m) = None \<longrightarrow>
             searches s' = searches s \<and> movies s' = movies s"
      using w(1,2) by auto
    have first: "length (message_text upd) \<le> 2 \<longrightarrow>
           r = Inr () \<and> requests s' = requests s \<and> searches s' = searches s \<and> movies s' = movies s"
      using True by simp
    have "\<exists>mid details e row.
             2 < length (message_text upd) \<and>
             requests s' = requests s @ [Search_movie (message_text upd) 1, Movie_details mid] \<and>
             http env (Suc (length (requests s))) (Movie_details mid) = Some details \<and>
             truthy details \<and>
             searches s' = searches s @ [e] \<and> result_count e = 1 \<and>
             movies s' = movies s @ [row] \<and> search row = search_id e \<and>
             snapshot_of (search_id e) details row"
      using True w by (intro exI [of _ mid] exI [of _ details] exI [of _ e] exI [of _ row]) simp
    then have second: "(searches s' = searches s \<and> movies s' = movies s) \<or>
          (\<exists>mid details e row.
             2 < length (message_text upd) \<and>
             requests s' = requests s @ [Search_movie (message_text upd) 1, Movie_details mid] \<and>
             http env (Suc (length (requests s))) (Movie_details mid) = Some details \<and>
             truthy details \<and>
             searches s' = searches s @ [e] \<and> result_count e = 1 \<and>
             movies s' = movies s @ [row] \<and> search row = search_id e \<and>
             snapshot_of (search_id e) details row)" ..
    show ?thesis by (rule conjI [OF first conjI [OF second third]])
  qed
qed

theorem handle_message_history_witness:
  "handle_message demo_env demo_update empty_state = (Inr (), searched_state) \<and>
   2 < length (message_text demo_update) \<and>
   (\<exists>e row. searches searched_state = searches empty_state @ [e] \<and> result_count e = 1 \<and>
      movies searched_state = movies empty_state @ [row] \<and> search row = search_id e) \<and>
   handle_message demo_env (demo_update\<lparr>message_text := [97, 98]\<rparr>) empty_state =
     (Inr (), snd (handle_message demo_env (demo_update\<lparr>message_text := [97, 98]\<rparr>) empty_state)) \<and>
   requests (snd (handle_message demo_env (demo_update\<lparr>message_text := [97, 98]\<rparr>) empty_state)) =
     requests empty_state"
proof -
  let ?short = "handle_message demo_env (demo_update\<lparr>message_text := [97, 98]\<rparr>) empty_state"
  have run: "handle_message demo_env demo_update empty_state = (Inr (), searched_state)"
    by code_simp
  have long: "2 < length (message_text demo_update)" by code_simp
  have changed: "searches searched_state \<noteq> searches empty_state" by code_simp
  have run2: "?short = (Inr (), snd ?short)" by code_simp
  have short: "length (message_text (demo_update\<lparr>message_text := [97, 98]\<rparr>)) \<le> 2" by simp
  from handle_message_history [OF run] changed
  have a: "\<exists>e row. searches searched_state = searches empty_state @ [e] \<and> result_count e = 1 \<and>
      movies searched_state = movies empty_state @ [row] \<and> search row = search_id e"
    by blast
  from handle_message_history [OF run2] short
  have b: "requests (snd ?short) = requests empty_state" by blast
  show ?thesis by (rule conjI [OF run conjI [OF long conjI [OF a conjI [OF run2 b]]]])
qed

section \<open>The bound on the number of results\<close>

text \<open>
  C9. Whatever the provider answers, one run of a search command or of the quick search
  adds at most one history entry, and the \<open>result_count\<close> of an entry it adds is
  between 0 and \<open>MOVIES_PER_PAGE\<close>, which is 5.
\<close>

theorem result_count_at_most_page:
  assumes "h \<in> {movie_search_command env upd, movie_by_rating_command env upd,
      low_budget_movie_command env upd, high_budget_movie_command env upd,
      handle_budget_search env upd budget_type, handle_message env upd}"
    and "h s = (r, s')"
  shows "searches s' = searches s \<or>
    (\<exists>e. searches s' = searches s @ [e] \<and> 0 \<le> result_count e \<and> result_count e \<le> MOVIES_PER_PAGE)"
proof -
  from assms(1) have "h = movie_search_command env upd \<or> h = movie_by_rating_command env upd \<or>
      (\<exists>bt. h = handle_budget_search env upd bt) \<or> h = handle_message env upd"
    by (auto simp: low_budget_movie_command_def high_budget_movie_command_def)
  then show ?thesis
  proof (elim disjE exE)
    assume "h = movie_search_command env upd"
    with assms(2) have "movie_search_command env upd s = (r, s')" by simp
    then show ?thesis by (rule movie_search_command_bound)
  next
    assume "h = movie_by_rating_command env upd"
    with assms(2) have "movie_by_rating_command env upd s = (r, s')" by simp
    then show ?thesis by (rule movie_by_rating_command_bound)
  next
    fix bt assume "h = handle_budget_search env upd bt"
    with assms(2) have "handle_budget_search env upd bt s = (r, s')" by simp
    then show ?thesis by (rule handle_budget_search_bound)
  next
    assume "h = handle_message env upd"
    with assms(2) have "handle_message env upd s = (r, s')" by simp
    then show ?thesis by (rule handle_message_bound)
  qed
qed

theorem result_count_at_most_page_witness:
  "handle_message demo_env demo_update \<in>
     {movie_search_command demo_env demo_update, movie_by_rating_command demo_env demo_update,
      low_budget_movie_command demo_env demo_update, high_budget_movie_command demo_env demo_update,
      handle_budget_search demo_env demo_update ''low'', handle_message demo_env demo_update} \<and>
   handle_message demo_env demo_update empty_state = (Inr (), searched_state) \<and>
   map result_count (searches searched_state) = [1] \<and>
   (\<exists>e. searches searched_state = searches empty_state @ [e] \<and> 0 \<le> result_count e \<and>
      result_count e \<le> MOVIES_PER_PAGE)"
proof -
  have member: "handle_message demo_env demo_update \<in>
     {movie_search_command demo_env demo_update, movie_by_rating_command demo_env demo_update,
      low_budget_movie_command demo_env demo_update, high_budget_movie_command demo_env demo_update,
      handle_budget_search demo_env demo_update ''low'', handle_message demo_env demo_update}"
    by (intro insertI1 insertI2)
  have run: "handle_message demo_env demo_update empty_state = (Inr (), searched_state)"
    by code_simp
  have counts: "map result_count (searches searched_state) = [1]" by code_simp
  have changed: "searches searched_state \<noteq> searches empty_state" by code_simp
  have "searches searched_state = searches empty_state \<or>
      (\<exists>e. searches searched_state = searches empty_state @ [e] \<and> 0 \<le> result_count e \<and>
        result_count e \<le> MOVIES_PER_PAGE)"
    by (rule result_count_at_most_page [of "handle_message demo_env demo_update"
          demo_env demo_update "''low''" empty_state "Inr ()" searched_state, OF member run])
  then have bound: "\<exists>e. searches searched_state = searches empty_state @ [e] \<and> 0 \<le> result_count e \<and>
      result_count e \<le> MOVIES_PER_PAGE"
  proof
    assume "searches searched_state = searches empty_state"
    with changed show ?thesis by contradiction
  next
    assume "\<exists>e. searches searched_state = searches empty_state @ [e] \<and> 0 \<le> result_count e \<and>
      result_count e \<le> MOVIES_PER_PAGE"
    then show ?thesis .
  qed
  show ?thesis by (rule conjI [OF member conjI [OF run conjI [OF counts bound]]])
qed

section \<open>Genre resolution\<close>

text \<open>
  C5. When the provider answers with a genre list whose entries carry a name and a
  numeric id, \<open>get_genre_id\<close> returns the id of the first genre of the list whose name
  contains the given name ignoring case, and \<open>None\<close> when no name contains it. With
  \<open>None\<close> both discover searches go on without a genre filter: they send the request
  with the unfiltered parameters and return what the provider answers to it.
\<close>

theorem get_genre_id_first_match:
  assumes "http env (length (requests s)) Genre_list = Some body"
    and "py_get body ''genres'' (JList []) = Inr (JList gs)"
    and "list_all genre_entry gs"
  shows "((\<exists>i<length gs. contains_ignoring_case env name (name_of (gs ! i)) \<and>
            (\<forall>j<i. \<not> contains_ignoring_case env name (name_of (gs ! j))) \<and>
            fst (get_genre_id env name s) = Inr (id_of (gs ! i))) \<or>
          ((\<forall>g\<in>set gs. \<not> contains_ignoring_case env name (name_of g)) \<and>
            fst (get_genre_id env name s) = Inr JNull)) \<and>
         (name \<noteq> [] \<and> fst (get_genre_id env name s) = Inr JNull \<longrightarrow>
            fst (search_movies_by_rating env min_rating (Some name) page s) =
              Inr (case http env (Suc (length (requests s))) (Discover_movie (rating_params min_rating page))
                   of None \<Rightarrow> JNull | Some answer \<Rightarrow> answer) \<and>
            requests (snd (search_movies_by_rating env min_rating (Some name) page s)) =
              requests s @ [Genre_list, Discover_movie (rating_params min_rating page)] \<and>
            fst (search_movies_by_budget env budget_type (Some name) page s) =
              Inr (case http env (Suc (length (requests s))) (Discover_movie (budget_params budget_type page))
                   of None \<Rightarrow> JNull | Some answer \<Rightarrow> answer) \<and>
            requests (snd (search_movies_by_budget env budget_type (Some name) page s)) =
              requests s @ [Genre_list, Discover_movie (budget_params budget_type page)])"
proof -
  have first: "(\<exists>i<length gs. contains_ignoring_case env name (name_of (gs ! i)) \<and>
            (\<forall>j<i. \<not> contains_ignoring_case env name (name_of (gs ! j))) \<and>
            fst (get_genre_id env name s) = Inr (id_of (gs ! i))) \<or>
          ((\<forall>g\<in>set gs. \<not> contains_ignoring_case env name (name_of g)) \<and>
            fst (get_genre_id env name s) = Inr JNull)"
    using find_genre_first [OF assms(3), of "lower env" name]
    unfolding contains_ignoring_case_def get_genre_id_run [OF assms(1,2)] fst_conv .
  have second: "fst (search_movies_by_rating env min_rating (Some name) page s) =
              Inr (case http env (Suc (length (requests s))) (Discover_movie (rating_params min_rating page))
                   of None \<Rightarrow> JNull | Some answer \<Rightarrow> answer) \<and>
            requests (snd (search_movies_by_rating env min_rating (Some name) page s)) =
              requests s @ [Genre_list, Discover_movie (rating_params min_rating page)] \<and>
            fst (search_movies_by_budget env budget_type (Some name) page s) =
              Inr (case http env (Suc (length (requests s))) (Discover_movie (budget_params budget_type page))
                   of None \<Rightarrow> JNull | Some answer \<Rightarrow> answer) \<and>
            requests (snd (search_movies_by_budget env budget_type (Some name) page s)) =
              requests s @ [Genre_list, Discover_movie (budget_params budget_type page)]"
    if "name \<noteq> []" "fst (get_genre_id env name s) = Inr JNull"
    using add_genre_none [OF that]
    by (simp add: search_movies_by_rating_def search_movies_by_budget_def bindA_def http_get_def)
  from first second show ?thesis by blast
qed

theorem get_genre_id_first_match_witness:
  "http demo_env (length (requests empty_state)) Genre_list = Some demo_genres \<and>
   fst (get_genre_id demo_env [1092, 1072, 1085, 1090, 1072, 1089, 1090] empty_state) = Inr (JInt 878) \<and>
   fst (get_genre_id demo_env [1082, 1086, 1084] empty_state) = Inr JNull \<and>
   requests (snd (search_movies_by_rating demo_env (Finite 8 0) (Some [1082, 1086, 1084]) 1 empty_state)) =
     requests empty_state @ [Genre_list, Discover_movie (rating_params (Finite 8 0) 1)]"
proof -
  let ?gs = "[JObj [(''id'', JInt 18), (''name'', JStr [1044, 1088, 1072, 1084, 1072])],
      JObj [(''id'', JInt 878), (''name'', JStr [1060, 1072, 1085, 1090, 1072, 1089, 1090, 1080, 1082, 1072])],
      JObj [(''id'', JInt 14), (''name'', JStr [1092, 1072, 1085, 1090, 1072, 1089, 1090, 1080, 1082, 1072, 32, 1080, 32, 1092, 1101, 1085, 1090, 1077, 1079, 1080])]]"
  have h1: "http demo_env (length (requests empty_state)) Genre_list = Some demo_genres"
    by code_simp
  have h2: "py_get demo_genres ''genres'' (JList []) = Inr (JList ?gs)" by code_simp
  have h3: "list_all genre_entry ?gs" by code_simp
  have hit: "fst (get_genre_id demo_env [1092, 1072, 1085, 1090, 1072, 1089, 1090] empty_state) = Inr (JInt 878)"
    by code_simp
  have miss: "fst (get_genre_id demo_env [1082, 1086, 1084] empty_state) = Inr JNull"
    by code_simp
  have "[1082, 1086, 1084] \<noteq> ([] :: ustr)" by simp
  with get_genre_id_first_match [OF h1 h2 h3, of "[1082, 1086, 1084]" "Finite 8 0" 1] miss
  have "requests (snd (search_movies_by_rating demo_env (Finite 8 0) (Some [1082, 1086, 1084]) 1 empty_state)) =
     requests empty_state @ [Genre_list, Discover_movie (rating_params (Finite 8 0) 1)]"
    by blast
  with h1 hit miss show ?thesis by blast
qed

end
